theory Spec2Isabelle
  imports Complex_Main "HOL-Library.Word" "HOL-Library.Multiset" "HOL-Library.AList"
begin

section \<open>Data model of the carrier / bandwidth-part configuration\<close>

text \<open>
  The structs \<open>ComponentCarrierBandwidthPartElement\<close>, \<open>ComponentCarrierInfo\<close> and
  \<open>OperationBandInfo\<close> are declared in \<open>mmwave-helper.h\<close>; the functions below read the
  fields listed here, with the types that their use in \<open>mmwave-helper.cc\<close> shows. A
  field \<open>m_x\<close> of the three structs is written \<open>bwp_x\<close>, \<open>cc_x\<close> and \<open>band_x\<close>, since
  the structs share field names. Frequencies are C++ \<open>double\<close>s; the code only compares
  them and subtracts one from another, and they are modelled as real numbers (no
  rounding, no NaN). A difference of two \<open>double\<close>s is rounded before it is compared:
  the rounded difference has the sign of the exact one, so the tests \<open>< 0\<close> are the
  code's, while the tests of a difference against \<open>1\<close> or \<open>freqSeparation\<close> are
  modelled on the exact difference. Identifiers and counters are \<open>uint8_t\<close>, bandwidths
  \<open>uint32_t\<close>.
\<close>

type_synonym u8 = "8 word"
type_synonym u16 = "16 word"
type_synonym u32 = "32 word"

datatype ContiguousMode = CONTIGUOUS | NON_CONTIGUOUS

datatype CcType = PRIMARY | SECONDARY

record ComponentCarrierBandwidthPartElement =
  bwp_bwpId :: u8
  bwp_numerology :: u8
  bwp_centralFrequency :: real
  bwp_lowerFrequency :: real
  bwp_higherFrequency :: real
  bwp_bandwidth :: u32

record ComponentCarrierInfo =
  cc_ccId :: u8
  cc_centralFrequency :: real
  cc_lowerFrequency :: real
  cc_higherFrequency :: real
  cc_bandwidth :: u32
  cc_numBwps :: u8
  cc_activeBwp :: u8
  cc_primaryCc :: CcType
  cc_bwp :: "ComponentCarrierBandwidthPartElement list"

record OperationBandInfo =
  band_bandId :: u8
  band_centralFrequency :: real
  band_lowerFrequency :: real
  band_higherFrequency :: real
  band_bandwidth :: u32
  band_numCarriers :: u8
  band_contiguousCc :: ContiguousMode
  band_cc :: "ComponentCarrierInfo list"

text \<open>
  The state of a \<open>ComponentCarrierBandwidthPartCreator\<close>: the fields that validation and
  the queries read.
\<close>

record ComponentCarrierBandwidthPartCreator =
  m_maxBands :: u8
  m_numBands :: u8
  m_bands :: "OperationBandInfo list"

text \<open>
  \<open>NS_ABORT_MSG\<close> and \<open>NS_ABORT_MSG_IF\<close> terminate the program with the given message;
  \<open>std::vector::at\<close> and \<open>std::map::at\<close> throw \<open>std::out_of_range\<close>; \<open>NS_ASSERT\<close>
  terminates the program when its condition is false.
\<close>

datatype error = Abort string | OutOfRange | AssertFailed

section \<open>Contiguity of the carriers of a band\<close>

text \<open>
  \<open>std::sort\<close> with \<open>CarrierFrequencyCompare\<close> orders the carriers by ascending central
  frequency. It is modelled by the stable \<open>sort_key\<close>; \<open>std::sort\<close> leaves the order
  of carriers with equal central frequency open.
\<close>

definition sortCarriers :: "ComponentCarrierInfo list \<Rightarrow> ComponentCarrierInfo list" where
  "sortCarriers ccs = sort_key cc_centralFrequency ccs"

text \<open>
  The loop of \<open>GetCcContiguousnessState\<close>:
  \<^verbatim>\<open>for (uint8_t i = 0; i < band.m_numCarriers-1; i++)
    if (band.m_cc.at(i).m_lowerFrequency - band.m_cc.at(i+1).m_higherFrequency > freqSeparation)
      return NON_CONTIGUOUS;
  return CONTIGUOUS;\<close>
  \<open>n\<close> is \<open>m_numCarriers\<close>, at least 1 when the loop is reached.
\<close>

function contiguousnessLoop ::
  "ComponentCarrierInfo list \<Rightarrow> u32 \<Rightarrow> nat \<Rightarrow> nat \<Rightarrow> error + ContiguousMode" where
  "contiguousnessLoop ccs freqSeparation n i =
     (if i < n - 1 then
        (if i + 1 < length ccs then
           (if cc_lowerFrequency (ccs ! i) - cc_higherFrequency (ccs ! (i + 1))
                 > real (unat freqSeparation)
            then Inr NON_CONTIGUOUS
            else contiguousnessLoop ccs freqSeparation n (i + 1))
         else Inl OutOfRange)
      else Inr CONTIGUOUS)"
  by pat_completeness auto
termination
  by (relation "measure (\<lambda>(ccs, freqSeparation, n, i). n - 1 - i)") auto

declare contiguousnessLoop.simps [simp del]

text \<open>
  \<open>GetCcContiguousnessState (band, freqSeparation)\<close>. The band is passed by reference
  and is left with its carriers sorted; the result is the mode and the band.
\<close>

definition GetCcContiguousnessState ::
  "OperationBandInfo \<Rightarrow> u32 \<Rightarrow> error + (ContiguousMode \<times> OperationBandInfo)" where
  "GetCcContiguousnessState band freqSeparation =
     (if band_numCarriers band < 1
      then Inl (Abort ''There should be more than 1 CC to determine if they are contiguous'')
      else
        let band' = band\<lparr>band_cc := sortCarriers (band_cc band)\<rparr> in
        (case contiguousnessLoop (band_cc band') freqSeparation (unat (band_numCarriers band')) 0 of
           Inl e \<Rightarrow> Inl e
         | Inr mode \<Rightarrow> Inr (mode, band')))"

section \<open>Validation of the bandwidth parts of a carrier\<close>

text \<open>
  \<open>std::sort\<close> with \<open>BwpFrequencyCompare\<close> (ascending central frequency) and with
  \<open>BwpIdCompare\<close> (ascending id), modelled by the stable \<open>sort_key\<close> as for the carriers.
\<close>

definition sortBwpsByFrequency ::
  "ComponentCarrierBandwidthPartElement list \<Rightarrow> ComponentCarrierBandwidthPartElement list" where
  "sortBwpsByFrequency bwps = sort_key bwp_centralFrequency bwps"

definition sortBwpsById ::
  "ComponentCarrierBandwidthPartElement list \<Rightarrow> ComponentCarrierBandwidthPartElement list" where
  "sortBwpsById bwps = sort_key bwp_bwpId bwps"

text \<open>
  The second check of \<open>CheckBwpsInCc\<close>, a loop over all bandwidth parts of the carrier:
  \<^verbatim>\<open>for (const auto & a : cc.m_bwp) {
    totalBandwidth += a.m_bandwidth;
    if (a.m_higherFrequency > cc.m_higherFrequency || a.m_lowerFrequency < cc.m_lowerFrequency)
      NS_ABORT_MSG("BWP part is out of the CC");
    if (a.m_bwpId == cc.m_activeBwp) activeFound = true;
  }\<close>
  \<open>totalBandwidth\<close> is a \<open>uint32_t\<close>: the sum wraps.
\<close>

fun bwpScan ::
  "ComponentCarrierInfo \<Rightarrow> ComponentCarrierBandwidthPartElement list \<Rightarrow> u32 \<Rightarrow> bool
     \<Rightarrow> error + (u32 \<times> bool)" where
  "bwpScan cc [] totalBandwidth activeFound = Inr (totalBandwidth, activeFound)"
| "bwpScan cc (a # as) totalBandwidth activeFound =
     (if bwp_higherFrequency a > cc_higherFrequency cc \<or> bwp_lowerFrequency a < cc_lowerFrequency cc
      then Inl (Abort ''BWP part is out of the CC'')
      else bwpScan cc as (totalBandwidth + bwp_bandwidth a)
             (if bwp_bwpId a = cc_activeBwp cc then True else activeFound))"

text \<open>
  The fourth check:
  \<^verbatim>\<open>for (uint8_t a = 0; a < numBwps-1; a++)
    if (cc.m_bwp.at(a).m_higherFrequency > cc.m_bwp.at(a+1).m_lowerFrequency)
      NS_ABORT_MSG("BWPs shall not overlap");\<close>
\<close>

function bwpOverlapLoop ::
  "ComponentCarrierBandwidthPartElement list \<Rightarrow> nat \<Rightarrow> nat \<Rightarrow> error + unit" where
  "bwpOverlapLoop bwps numBwps a =
     (if a < numBwps - 1 then
        (if a + 1 < length bwps then
           (if bwp_higherFrequency (bwps ! a) > bwp_lowerFrequency (bwps ! (a + 1))
            then Inl (Abort ''BWPs shall not overlap'')
            else bwpOverlapLoop bwps numBwps (a + 1))
         else Inl OutOfRange)
      else Inr ())"
  by pat_completeness auto
termination
  by (relation "measure (\<lambda>(bwps, numBwps, a). numBwps - 1 - a)") auto

declare bwpOverlapLoop.simps [simp del]

text \<open>
  The fifth check, on the bandwidth parts sorted by id:
  \<^verbatim>\<open>for (uint8_t i = 0; i < numBwps-1; i++)
    if (cc.m_bwp.at(i).m_bwpId == cc.m_bwp.at(i+1).m_bwpId)
      NS_ABORT_MSG("Repeated BWP id");\<close>
\<close>

function bwpRepeatedIdLoop ::
  "ComponentCarrierBandwidthPartElement list \<Rightarrow> nat \<Rightarrow> nat \<Rightarrow> error + unit" where
  "bwpRepeatedIdLoop bwps numBwps i =
     (if i < numBwps - 1 then
        (if i + 1 < length bwps then
           (if bwp_bwpId (bwps ! i) = bwp_bwpId (bwps ! (i + 1))
            then Inl (Abort ''Repeated BWP id'')
            else bwpRepeatedIdLoop bwps numBwps (i + 1))
         else Inl OutOfRange)
      else Inr ())"
  by pat_completeness auto
termination
  by (relation "measure (\<lambda>(bwps, numBwps, i). numBwps - 1 - i)") auto

declare bwpRepeatedIdLoop.simps [simp del]

text \<open>
  \<open>CheckBwpsInCc (cc)\<close>. \<open>numBwps\<close> is the \<open>uint8_t\<close> that \<open>cc.m_bwp.size ()\<close> is
  assigned to. The carrier is passed by reference and is left with its bandwidth parts
  sorted by id.
\<close>

definition CheckBwpsInCc :: "ComponentCarrierInfo \<Rightarrow> error + ComponentCarrierInfo" where
  "CheckBwpsInCc cc =
     (let numBwps = (of_nat (length (cc_bwp cc)) :: u8) in
      if numBwps > 4 \<or> numBwps < 1
      then Inl (Abort ''The number of BWPs exceeds the maximum value (4)'')
      else
        let byFrequency = sortBwpsByFrequency (cc_bwp cc) in
        (case bwpScan cc byFrequency 0 False of
           Inl e \<Rightarrow> Inl e
         | Inr (totalBandwidth, activeFound) \<Rightarrow>
             if totalBandwidth > cc_bandwidth cc
             then Inl (Abort ''Aggregated BWP is larger than carrier bandwidth'')
             else if activeFound = False
             then Inl (Abort ''The active BWP id was not found in the CC'')
             else
               (case bwpOverlapLoop byFrequency (unat numBwps) 0 of
                  Inl e \<Rightarrow> Inl e
                | Inr _ \<Rightarrow>
                    let byId = sortBwpsById byFrequency in
                    (case bwpRepeatedIdLoop byId (unat numBwps) 0 of
                       Inl e \<Rightarrow> Inl e
                     | Inr _ \<Rightarrow> Inr (cc\<lparr>cc_bwp := byId\<rparr>)))))"

text \<open>
  The six conditions under which the spec's \<open>ValidateBwpsInCarrier\<close> fails, in the
  spec's words: the BWP count is outside \<open>[1,4]\<close>; some BWP's bounds exceed the
  carrier's; the BWP bandwidths sum to more than the carrier bandwidth; the active BWP id
  is not among the BWPs; two BWPs adjacent in ascending-frequency order overlap; two BWPs
  share an id.
\<close>

definition bwpConfigurationInvalid :: "ComponentCarrierInfo \<Rightarrow> bool" where
  "bwpConfigurationInvalid cc \<longleftrightarrow>
     length (cc_bwp cc) < 1 \<or> 4 < length (cc_bwp cc)
     \<or> (\<exists>a \<in> set (cc_bwp cc). bwp_higherFrequency a > cc_higherFrequency cc
                                  \<or> bwp_lowerFrequency a < cc_lowerFrequency cc)
     \<or> unat (cc_bandwidth cc) < (\<Sum>a\<leftarrow>cc_bwp cc. unat (bwp_bandwidth a))
     \<or> cc_activeBwp cc \<notin> set (map bwp_bwpId (cc_bwp cc))
     \<or> (\<exists>i. i + 1 < length (cc_bwp cc)
            \<and> bwp_higherFrequency (sortBwpsByFrequency (cc_bwp cc) ! i)
                > bwp_lowerFrequency (sortBwpsByFrequency (cc_bwp cc) ! (i + 1)))
     \<or> \<not> distinct (map bwp_bwpId (cc_bwp cc))"

section \<open>Validation of an operation band\<close>

text \<open>
  The loop of \<open>ValidateOperationBand\<close> over the sorted carriers:
  \<^verbatim>\<open>uint8_t c=0;
  while (c < numCcs-1) {
    if ((double)band.m_cc.at(c+1).m_lowerFrequency - (double)band.m_cc.at(c).m_higherFrequency < 0)
      NS_ABORT_MSG("CCs overlap");
    if (band.m_cc.at(c+1).m_lowerFrequency - band.m_cc.at(c).m_higherFrequency > 1)
      contiguous = NON_CONTIGUOUS;
    ++c;
  }\<close>
\<close>

function ccOverlapLoop ::
  "ComponentCarrierInfo list \<Rightarrow> nat \<Rightarrow> nat \<Rightarrow> ContiguousMode \<Rightarrow> error + ContiguousMode" where
  "ccOverlapLoop ccs numCcs c contiguous =
     (if c < numCcs - 1 then
        (if c + 1 < length ccs then
           (if cc_lowerFrequency (ccs ! (c + 1)) - cc_higherFrequency (ccs ! c) < 0
            then Inl (Abort ''CCs overlap'')
            else ccOverlapLoop ccs numCcs (c + 1)
                   (if cc_lowerFrequency (ccs ! (c + 1)) - cc_higherFrequency (ccs ! c) > 1
                    then NON_CONTIGUOUS else contiguous))
         else Inl OutOfRange)
      else Inr contiguous)"
  by pat_completeness auto
termination
  by (relation "measure (\<lambda>(ccs, numCcs, c, contiguous). numCcs - 1 - c)") auto

declare ccOverlapLoop.simps [simp del]

text \<open>\<^verbatim>\<open>for (auto & cc : band.m_cc) CheckBwpsInCc(cc);\<close>\<close>

fun checkBwpsInCcs :: "ComponentCarrierInfo list \<Rightarrow> error + ComponentCarrierInfo list" where
  "checkBwpsInCcs [] = Inr []"
| "checkBwpsInCcs (cc # ccs) =
     (case CheckBwpsInCc cc of
        Inl e \<Rightarrow> Inl e
      | Inr cc' \<Rightarrow>
          (case checkBwpsInCcs ccs of
             Inl e \<Rightarrow> Inl e
           | Inr ccs' \<Rightarrow> Inr (cc' # ccs')))"

text \<open>
  \<open>ValidateOperationBand (band)\<close>. \<open>m_numCarriers\<close> is compared with \<open>m_cc.size ()\<close> as
  a \<open>size_t\<close>; \<open>numCcs\<close> is the \<open>uint8_t\<close> the size is assigned to. The band is passed
  by reference: it is left with its carriers sorted and validated, and with the
  contiguity that the loop found.
\<close>

definition ValidateOperationBand :: "OperationBandInfo \<Rightarrow> error + OperationBandInfo" where
  "ValidateOperationBand band =
     (if band_cc band = [] then Inl (Abort ''No CC information provided'')
      else if unat (band_numCarriers band) \<noteq> length (band_cc band)
      then Inl (Abort
        ''The declared number of intra-band CCs does not match the number of configured CCs'')
      else
        let numCcs = (of_nat (length (band_cc band)) :: u8);
            ccs = sortCarriers (band_cc band) in
        (case ccOverlapLoop ccs (unat numCcs) 0 CONTIGUOUS of
           Inl e \<Rightarrow> Inl e
         | Inr contiguous \<Rightarrow>
             (case checkBwpsInCcs ccs of
                Inl e \<Rightarrow> Inl e
              | Inr ccs' \<Rightarrow> Inr (band\<lparr>band_contiguousCc := contiguous, band_cc := ccs'\<rparr>))))"

text \<open>
  \<open>std::sort\<close> is not stable: when carriers share a central frequency, the order it
  leaves them in is any of the orders ascending in central frequency.
  \<open>ValidateOperationBandSorted ccs band\<close> is \<open>ValidateOperationBand\<close> on the band
  whose carriers the sort has left in the order \<open>ccs\<close>; \<open>ValidateOperationBand\<close> is
  the case in which that order is the one of \<open>sortCarriers\<close>, and when the central
  frequencies are pairwise distinct there is no other.
\<close>

definition ValidateOperationBandSorted ::
  "ComponentCarrierInfo list \<Rightarrow> OperationBandInfo \<Rightarrow> error + OperationBandInfo" where
  "ValidateOperationBandSorted ccs band =
     (if band_cc band = [] then Inl (Abort ''No CC information provided'')
      else if unat (band_numCarriers band) \<noteq> length (band_cc band)
      then Inl (Abort
        ''The declared number of intra-band CCs does not match the number of configured CCs'')
      else
        let numCcs = (of_nat (length (band_cc band)) :: u8) in
        (case ccOverlapLoop ccs (unat numCcs) 0 CONTIGUOUS of
           Inl e \<Rightarrow> Inl e
         | Inr contiguous \<Rightarrow>
             (case checkBwpsInCcs ccs of
                Inl e \<Rightarrow> Inl e
              | Inr ccs' \<Rightarrow> Inr (band\<lparr>band_contiguousCc := contiguous, band_cc := ccs'\<rparr>))))"

section \<open>Validation of the whole configuration\<close>

text \<open>\<^verbatim>\<open>for (const auto & cc : b.m_cc) if (cc.m_primaryCc == PRIMARY) ++numPrimaryCcs;\<close>\<close>

fun countPrimaryCcs :: "ComponentCarrierInfo list \<Rightarrow> u8 \<Rightarrow> u8" where
  "countPrimaryCcs [] numPrimaryCcs = numPrimaryCcs"
| "countPrimaryCcs (cc # ccs) numPrimaryCcs =
     countPrimaryCcs ccs (if cc_primaryCc cc = PRIMARY then numPrimaryCcs + 1 else numPrimaryCcs)"

text \<open>
  The inner loop of \<open>ValidateCaBwpConfiguration\<close>, for the band \<open>a\<close> at index \<open>i\<close>, over
  the bands \<open>b\<close> at index \<open>j\<close>; \<open>&a != &b\<close> compares the two positions:
  \<^verbatim>\<open>for (const auto & b : m_bands) {
    if (&a != &b && a.m_higherFrequency < b.m_lowerFrequency)
      NS_ABORT_MSG("Bands shall not overlap");
    for (const auto & cc : b.m_cc) ...
  }\<close>
\<close>

fun otherBandsLoop ::
  "OperationBandInfo \<Rightarrow> nat \<Rightarrow> OperationBandInfo list \<Rightarrow> nat \<Rightarrow> u8 \<Rightarrow> error + u8" where
  "otherBandsLoop a i [] j numPrimaryCcs = Inr numPrimaryCcs"
| "otherBandsLoop a i (b # bs) j numPrimaryCcs =
     (if i \<noteq> j \<and> band_higherFrequency a < band_lowerFrequency b
      then Inl (Abort ''Bands shall not overlap'')
      else otherBandsLoop a i bs (j + 1) (countPrimaryCcs (band_cc b) numPrimaryCcs))"

text \<open>
  The outer loop, over the bands \<open>a\<close> at index \<open>i\<close>: \<open>ValidateOperationBand\<close> rewrites the
  band in place, the inner loop runs over all bands, and \<open>numAggrCcs\<close> (a \<open>uint16_t\<close>)
  grows by \<open>a.m_numCarriers\<close>.
\<close>

function bandsLoop ::
  "OperationBandInfo list \<Rightarrow> nat \<Rightarrow> u16 \<Rightarrow> u8 \<Rightarrow> error + (OperationBandInfo list \<times> u16 \<times> u8)" where
  "bandsLoop bands i numAggrCcs numPrimaryCcs =
     (if i < length bands then
        (case ValidateOperationBand (bands ! i) of
           Inl e \<Rightarrow> Inl e
         | Inr a \<Rightarrow>
             (case otherBandsLoop a i (bands[i := a]) 0 numPrimaryCcs of
                Inl e \<Rightarrow> Inl e
              | Inr numPrimaryCcs' \<Rightarrow>
                  bandsLoop (bands[i := a]) (i + 1) (numAggrCcs + ucast (band_numCarriers a))
                    numPrimaryCcs'))
      else Inr (bands, numAggrCcs, numPrimaryCcs))"
  by pat_completeness auto
termination
  by (relation "measure (\<lambda>(bands, i, numAggrCcs, numPrimaryCcs). length bands - i)") auto

declare bandsLoop.simps [simp del]

text \<open>
  \<open>ValidateCaBwpConfiguration ()\<close>. The constant \<open>MAX_CC_INTER_BAND\<close> is declared in
  \<open>mmwave-helper.h\<close> and is a parameter here.
\<close>

definition ValidateCaBwpConfiguration ::
  "nat \<Rightarrow> ComponentCarrierBandwidthPartCreator \<Rightarrow> error + ComponentCarrierBandwidthPartCreator" where
  "ValidateCaBwpConfiguration MAX_CC_INTER_BAND s =
     (if unat (m_numBands s) \<noteq> length (m_bands s)
      then Inl (Abort ''The number of bands does not match the number of bands created'')
      else if m_numBands s > m_maxBands s
      then Inl (Abort ''The number of bands is larger than the maximum number'')
      else
        (case bandsLoop (m_bands s) 0 0 0 of
           Inl e \<Rightarrow> Inl e
         | Inr (bands, numAggrCcs, numPrimaryCcs) \<Rightarrow>
             if unat numAggrCcs > MAX_CC_INTER_BAND
             then Inl (Abort ''The number of allowed aggregated CCs was exceeded'')
             else if numPrimaryCcs \<noteq> 1
             then Inl (Abort ''There must be one primary CC'')
             else Inr (s\<lparr>m_bands := bands\<rparr>)))"

text \<open>For the statement of the primary count: the number of \<open>PRIMARY\<close> carriers in a list.\<close>

definition primaryCcs :: "ComponentCarrierInfo list \<Rightarrow> nat" where
  "primaryCcs ccs = length (filter (\<lambda>cc. cc_primaryCc cc = PRIMARY) ccs)"

section \<open>Queries on the configuration\<close>

text \<open>
  \<open>GetActiveBwpInfo (bandIndex, ccIndex)\<close>. In \<open>ccIndex > band.m_numCarriers-1\<close> both
  sides are promoted to \<open>int\<close>; in \<open>ccIndex > band.m_cc.size()-1\<close> the vector is not
  empty. The loop with \<open>found\<close> and \<open>break\<close> takes the first bandwidth part whose id is
  the active one.
\<close>

definition GetActiveBwpInfo ::
  "ComponentCarrierBandwidthPartCreator \<Rightarrow> u8 \<Rightarrow> u8
     \<Rightarrow> error + ComponentCarrierBandwidthPartElement" where
  "GetActiveBwpInfo s bandIndex ccIndex =
     (if m_bands s = [] then Inl (Abort ''No operation band information provided'')
      else if bandIndex \<ge> m_maxBands s \<or> unat bandIndex \<ge> length (m_bands s)
      then Inl (Abort ''Wrong operation band index'')
      else
        let band = m_bands s ! unat bandIndex in
        if band_cc band = [] then Inl (Abort ''No carrier band information provided'')
        else if int (unat ccIndex) > int (unat (band_numCarriers band)) - 1
                \<or> unat ccIndex > length (band_cc band) - 1
        then Inl (Abort ''Wrong component carrier index'')
        else
          let cc = band_cc band ! unat ccIndex in
          (case find (\<lambda>b. bwp_bwpId b = cc_activeBwp cc) (cc_bwp cc) of
             None \<Rightarrow> Inl (Abort ''Active BWP id is not found in the current CC'')
           | Some bwp \<Rightarrow> Inr bwp))"

text \<open>
  \<open>GetAggregatedBandwidth ()\<close>: three nested loops that add to the \<open>uint32_t\<close>
  \<open>aBandwidth\<close> the bandwidth of every bandwidth part whose id is the active id of its
  carrier.
\<close>

fun aggregateBwps :: "u8 \<Rightarrow> ComponentCarrierBandwidthPartElement list \<Rightarrow> u32 \<Rightarrow> u32" where
  "aggregateBwps activeBwp [] aBandwidth = aBandwidth"
| "aggregateBwps activeBwp (bwp # bwps) aBandwidth =
     aggregateBwps activeBwp bwps
       (if bwp_bwpId bwp = activeBwp then aBandwidth + bwp_bandwidth bwp else aBandwidth)"

fun aggregateCcs :: "ComponentCarrierInfo list \<Rightarrow> u32 \<Rightarrow> u32" where
  "aggregateCcs [] aBandwidth = aBandwidth"
| "aggregateCcs (cc # ccs) aBandwidth =
     aggregateCcs ccs (aggregateBwps (cc_activeBwp cc) (cc_bwp cc) aBandwidth)"

fun aggregateBands :: "OperationBandInfo list \<Rightarrow> u32 \<Rightarrow> u32" where
  "aggregateBands [] aBandwidth = aBandwidth"
| "aggregateBands (band # bands) aBandwidth =
     aggregateBands bands (aggregateCcs (band_cc band) aBandwidth)"

definition GetAggregatedBandwidth :: "ComponentCarrierBandwidthPartCreator \<Rightarrow> u32" where
  "GetAggregatedBandwidth s = aggregateBands (m_bands s) 0"

text \<open>
  For the statement of the aggregate: the bandwidth parts of a carrier whose id is the
  carrier's active id, and those of all carriers of all bands.
\<close>

definition activeBwpsOfCc :: "ComponentCarrierInfo \<Rightarrow> ComponentCarrierBandwidthPartElement list" where
  "activeBwpsOfCc cc = filter (\<lambda>bwp. bwp_bwpId bwp = cc_activeBwp cc) (cc_bwp cc)"

definition activeBwps ::
  "ComponentCarrierBandwidthPartCreator \<Rightarrow> ComponentCarrierBandwidthPartElement list" where
  "activeBwps s = concat (map activeBwpsOfCc (concat (map band_cc (m_bands s))))"

text \<open>
  \<open>ChangeActiveBwp (bandId, ccId, activeBwpId)\<close>: the loops run over the bands whose
  \<open>m_bandId\<close> is \<open>bandId\<close> and their carriers whose \<open>m_ccId\<close> is \<open>ccId\<close>; the first such
  carrier that has a bandwidth part with the requested id gets it as its active id and
  the function returns. The two functions below give \<open>Some\<close> of the changed list when a
  carrier was changed, and \<open>None\<close> when the loop ran to its end.
\<close>

fun changeActiveInCcs :: "ComponentCarrierInfo list \<Rightarrow> u8 \<Rightarrow> u8 \<Rightarrow> ComponentCarrierInfo list option" where
  "changeActiveInCcs [] ccId activeBwpId = None"
| "changeActiveInCcs (cc # ccs) ccId activeBwpId =
     (if cc_ccId cc = ccId \<and> activeBwpId \<in> set (map bwp_bwpId (cc_bwp cc))
      then Some (cc\<lparr>cc_activeBwp := activeBwpId\<rparr> # ccs)
      else map_option ((#) cc) (changeActiveInCcs ccs ccId activeBwpId))"

fun changeActiveInBands ::
  "OperationBandInfo list \<Rightarrow> u8 \<Rightarrow> u8 \<Rightarrow> u8 \<Rightarrow> OperationBandInfo list option" where
  "changeActiveInBands [] bandId ccId activeBwpId = None"
| "changeActiveInBands (band # bands) bandId ccId activeBwpId =
     (if band_bandId band = bandId then
        (case changeActiveInCcs (band_cc band) ccId activeBwpId of
           Some ccs \<Rightarrow> Some (band\<lparr>band_cc := ccs\<rparr> # bands)
         | None \<Rightarrow> map_option ((#) band) (changeActiveInBands bands bandId ccId activeBwpId))
      else map_option ((#) band) (changeActiveInBands bands bandId ccId activeBwpId))"

definition ChangeActiveBwp ::
  "ComponentCarrierBandwidthPartCreator \<Rightarrow> u8 \<Rightarrow> u8 \<Rightarrow> u8
     \<Rightarrow> error + ComponentCarrierBandwidthPartCreator" where
  "ChangeActiveBwp s bandId ccId activeBwpId =
     (case changeActiveInBands (m_bands s) bandId ccId activeBwpId of
        Some bands \<Rightarrow> Inr (s\<lparr>m_bands := bands\<rparr>)
      | None \<Rightarrow> Inl (Abort ''Could not change the active BWP due to wrong request''))"

section \<open>The UE net device\<close>

text \<open>
  \<open>MmWaveUeNetDevice\<close> holds the component carrier manager and the map \<open>m_ccMap\<close> from
  carrier index to carrier; a carrier gives its DL EARFCN and its PHY. The
  \<open>std::map\<close> is an association list in ascending key order, the order in which the
  range-for of \<open>GetPhyOnCenterFreq\<close> visits it. \<open>DlHarqInfo\<close> (type \<open>'h\<close>) and the PHY
  (type \<open>'phy\<close>) are declared outside these sources. \<open>m_componentCarrierManager\<close> is
  \<open>Some route\<close> when \<open>DynamicCast<BwpManagerUe>\<close> gives a manager whose
  \<open>RouteDlHarqFeedback\<close> is \<open>route\<close>, and \<open>None\<close> when it gives \<open>nullptr\<close>.
\<close>

record 'phy ComponentCarrierMmWaveUe =
  ccue_dlEarfcn :: u32
  ccue_phy :: 'phy

record ('h, 'phy) MmWaveUeNetDevice =
  m_componentCarrierManager :: "('h \<Rightarrow> u8) option"
  m_ccMap :: "(u8 \<times> 'phy ComponentCarrierMmWaveUe) list"

text \<open>
  \<open>MmWaveUeNetDevice::EnqueueDlHarqFeedback (m)\<close>. The PHY's own
  \<open>EnqueueDlHarqFeedback\<close> is the parameter \<open>phyEnqueue\<close>; the call changes the PHY that
  the selected carrier points to.
\<close>

definition EnqueueDlHarqFeedback ::
  "('h \<Rightarrow> 'phy \<Rightarrow> 'phy) \<Rightarrow> ('h, 'phy) MmWaveUeNetDevice \<Rightarrow> 'h
     \<Rightarrow> error + ('h, 'phy) MmWaveUeNetDevice" where
  "EnqueueDlHarqFeedback phyEnqueue dev m =
     (case m_componentCarrierManager dev of
        None \<Rightarrow> Inl AssertFailed
      | Some RouteDlHarqFeedback \<Rightarrow>
          let index = RouteDlHarqFeedback m in
          (case map_of (m_ccMap dev) index of
             None \<Rightarrow> Inl OutOfRange
           | Some cc \<Rightarrow>
               Inr (dev\<lparr>m_ccMap :=
                 AList.update index (cc\<lparr>ccue_phy := phyEnqueue m (ccue_phy cc)\<rparr>) (m_ccMap dev)\<rparr>)))"

text \<open>
  \<open>GetPhyOnCenterFreq (centerFrequency)\<close>:
  \<^verbatim>\<open>for (auto i:m_ccMap)
    if (i.second->GetDlEarfcn()) return i.second->GetPhy();
  return nullptr;\<close>
  \<open>None\<close> is the null pointer.
\<close>

fun firstCcWithDlEarfcn :: "(u8 \<times> 'phy ComponentCarrierMmWaveUe) list \<Rightarrow> 'phy option" where
  "firstCcWithDlEarfcn [] = None"
| "firstCcWithDlEarfcn (i # rest) =
     (if ccue_dlEarfcn (snd i) \<noteq> 0 then Some (ccue_phy (snd i)) else firstCcWithDlEarfcn rest)"

definition GetPhyOnCenterFreq :: "('h, 'phy) MmWaveUeNetDevice \<Rightarrow> real \<Rightarrow> 'phy option" where
  "GetPhyOnCenterFreq dev centerFrequency = firstCcWithDlEarfcn (m_ccMap dev)"

section \<open>Transport blocks of the spectrum PHY\<close>

text \<open>
  \<open>ExpectedTb\<close> and \<open>TransportBlockInfo\<close> as \<open>mmwave-spectrum-phy.h\<close> declares them. The
  pointer \<open>m_outputOfEM\<close> to the output of the error model is left out. A
  \<open>TransportBlockInfo\<close> is constructed from an \<open>ExpectedTb\<close>, its other members taking
  their default initialisers.
\<close>

record ExpectedTb =
  m_ndi :: u8
  m_tbSize :: u32
  m_mcs :: u8
  m_rbBitmap :: "int list"
  m_harqProcessId :: u8
  m_rv :: u8
  m_isDownlink :: bool
  m_symStart :: u8
  m_numSym :: u8

record TransportBlockInfo =
  m_expected :: ExpectedTb
  m_isCorrupted :: bool
  m_harqFeedbackSent :: bool
  m_sinrAvg :: real
  m_sinrMin :: real

definition newTransportBlockInfo :: "ExpectedTb \<Rightarrow> TransportBlockInfo" where
  "newTransportBlockInfo expected =
     \<lparr>m_expected = expected, m_isCorrupted = False, m_harqFeedbackSent = False,
      m_sinrAvg = 0, m_sinrMin = 0\<rparr>"

text \<open>
  The part of a \<open>MmWaveSpectrumPhy\<close> that tracks transport blocks: the map
  \<open>m_transportBlocks\<close> keyed by RNTI, whether HARQ is enabled, and the calls made so far
  to the DL and UL HARQ feedback callbacks (RNTI, HARQ process id, and whether the block
  was received uncorrupted).
\<close>

datatype HarqFeedback = DlHarqFeedback u16 u8 bool | UlHarqFeedback u16 u8 bool

fun feedbackRnti :: "HarqFeedback \<Rightarrow> u16" where
  "feedbackRnti (DlHarqFeedback rnti harqId ack) = rnti"
| "feedbackRnti (UlHarqFeedback rnti harqId ack) = rnti"

record MmWaveSpectrumPhy =
  m_transportBlocks :: "u16 \<rightharpoonup> TransportBlockInfo"
  harqEnabled :: bool
  harqFeedbackCalls :: "HarqFeedback list"

text \<open>
  Modelled from the spec: the body of \<open>MmWaveSpectrumPhy::AddExpectedTb\<close>, which the
  header only declares. It registers the expected transport block under the RNTI; a
  second registration for the same receiver silently overwrites the first.
\<close>

definition AddExpectedTb ::
  "MmWaveSpectrumPhy \<Rightarrow> u16 \<Rightarrow> u8 \<Rightarrow> u32 \<Rightarrow> u8 \<Rightarrow> int list \<Rightarrow> u8 \<Rightarrow> u8 \<Rightarrow> bool \<Rightarrow> u8 \<Rightarrow> u8
     \<Rightarrow> MmWaveSpectrumPhy" where
  "AddExpectedTb phy rnti ndi tbSize mcs rbMap harqId rv downlink symStart numSym =
     phy\<lparr>m_transportBlocks := (m_transportBlocks phy)(rnti \<mapsto> newTransportBlockInfo
       \<lparr>m_ndi = ndi, m_tbSize = tbSize, m_mcs = mcs, m_rbBitmap = rbMap, m_harqProcessId = harqId,
        m_rv = rv, m_isDownlink = downlink, m_symStart = symStart, m_numSym = numSym\<rparr>)\<rparr>"

text \<open>
  Modelled from the spec: the body of \<open>MmWaveSpectrumPhy::EndRxData\<close>, which the header
  only declares. For the transmission of one receiver id whose reception ends: with no
  registration nothing happens; otherwise the SINR over the used resource blocks
  (parameter \<open>sinr\<close>) and the decision of the error model (parameter \<open>errorModel\<close>, true
  for a corrupted block) are stored, and if HARQ is enabled and feedback has not yet been
  sent for this block, the DL or UL feedback callback is called and the block is marked
  feedback-sent.
\<close>

definition harqFeedbackOf :: "u16 \<Rightarrow> TransportBlockInfo \<Rightarrow> HarqFeedback" where
  "harqFeedbackOf rnti tb =
     (if m_isDownlink (m_expected tb)
      then DlHarqFeedback rnti (m_harqProcessId (m_expected tb)) (m_isCorrupted tb = False)
      else UlHarqFeedback rnti (m_harqProcessId (m_expected tb)) (m_isCorrupted tb = False))"

definition endRxTransportBlock ::
  "(ExpectedTb \<Rightarrow> real \<times> real) \<Rightarrow> (ExpectedTb \<Rightarrow> real \<times> real \<Rightarrow> bool)
     \<Rightarrow> u16 \<Rightarrow> MmWaveSpectrumPhy \<Rightarrow> MmWaveSpectrumPhy" where
  "endRxTransportBlock sinr errorModel rnti phy =
     (case m_transportBlocks phy rnti of
        None \<Rightarrow> phy
      | Some tb \<Rightarrow>
          let tb' = tb\<lparr>m_isCorrupted := errorModel (m_expected tb) (sinr (m_expected tb)),
                       m_sinrAvg := fst (sinr (m_expected tb)),
                       m_sinrMin := snd (sinr (m_expected tb))\<rparr> in
          if harqEnabled phy \<and> m_harqFeedbackSent tb = False
          then phy\<lparr>m_transportBlocks :=
                      (m_transportBlocks phy)(rnti \<mapsto> tb'\<lparr>m_harqFeedbackSent := True\<rparr>),
                    harqFeedbackCalls := harqFeedbackCalls phy @ [harqFeedbackOf rnti tb']\<rparr>
          else phy\<lparr>m_transportBlocks := (m_transportBlocks phy)(rnti \<mapsto> tb')\<rparr>)"

text \<open>
  End-of-reception processing for the receiver ids \<open>received\<close> of the transmissions
  whose reception ends, in order.
\<close>

definition EndRxData ::
  "(ExpectedTb \<Rightarrow> real \<times> real) \<Rightarrow> (ExpectedTb \<Rightarrow> real \<times> real \<Rightarrow> bool)
     \<Rightarrow> MmWaveSpectrumPhy \<Rightarrow> u16 list \<Rightarrow> MmWaveSpectrumPhy" where
  "EndRxData sinr errorModel phy received =
     fold (endRxTransportBlock sinr errorModel) received phy"

text \<open>The number of HARQ feedback callback calls made for a receiver id.\<close>

definition harqFeedbackCount :: "MmWaveSpectrumPhy \<Rightarrow> u16 \<Rightarrow> nat" where
  "harqFeedbackCount phy rnti =
     length (filter (\<lambda>f. feedbackRnti f = rnti) (harqFeedbackCalls phy))"

text \<open>
  Whether the block registered for a receiver id is marked feedback-sent, and whether it
  is registered and not yet marked.
\<close>

definition feedbackSent :: "MmWaveSpectrumPhy \<Rightarrow> u16 \<Rightarrow> bool" where
  "feedbackSent phy rnti =
     (case m_transportBlocks phy rnti of None \<Rightarrow> False | Some tb \<Rightarrow> m_harqFeedbackSent tb)"

definition feedbackPending :: "MmWaveSpectrumPhy \<Rightarrow> u16 \<Rightarrow> bool" where
  "feedbackPending phy rnti =
     (case m_transportBlocks phy rnti of None \<Rightarrow> False | Some tb \<Rightarrow> m_harqFeedbackSent tb = False)"

text \<open>
  The HARQ feedback callback calls made for a receiver id, in the order they were made.
\<close>

definition harqFeedbackFor :: "MmWaveSpectrumPhy \<Rightarrow> u16 \<Rightarrow> HarqFeedback list" where
  "harqFeedbackFor phy rnti = filter (\<lambda>f. feedbackRnti f = rnti) (harqFeedbackCalls phy)"


section \<open>Examples\<close>

text \<open>Example carriers and bands: a carrier with one bandwidth part that fills it.\<close>

definition exampleBwp :: "u8 \<Rightarrow> real \<Rightarrow> real \<Rightarrow> u32 \<Rightarrow> ComponentCarrierBandwidthPartElement" where
  "exampleBwp bid lo hi bw =
     \<lparr>bwp_bwpId = bid, bwp_numerology = 3, bwp_centralFrequency = (lo + hi) / 2,
      bwp_lowerFrequency = lo, bwp_higherFrequency = hi, bwp_bandwidth = bw\<rparr>"

definition exampleCc :: "u8 \<Rightarrow> real \<Rightarrow> real \<Rightarrow> u32 \<Rightarrow> CcType \<Rightarrow> ComponentCarrierInfo" where
  "exampleCc cid lo hi bw prim =
     \<lparr>cc_ccId = cid, cc_centralFrequency = (lo + hi) / 2, cc_lowerFrequency = lo,
      cc_higherFrequency = hi, cc_bandwidth = bw, cc_numBwps = 1, cc_activeBwp = 0,
      cc_primaryCc = prim, cc_bwp = [exampleBwp 0 lo hi bw]\<rparr>"

definition exampleBand :: "u8 \<Rightarrow> real \<Rightarrow> real \<Rightarrow> u32 \<Rightarrow> ComponentCarrierInfo list \<Rightarrow> OperationBandInfo" where
  "exampleBand bid lo hi bw ccs =
     \<lparr>band_bandId = bid, band_centralFrequency = (lo + hi) / 2, band_lowerFrequency = lo,
      band_higherFrequency = hi, band_bandwidth = bw, band_numCarriers = of_nat (length ccs),
      band_contiguousCc = CONTIGUOUS, band_cc = ccs\<rparr>"

definition exampleCreator :: "OperationBandInfo list \<Rightarrow> ComponentCarrierBandwidthPartCreator" where
  "exampleCreator bands =
     \<lparr>m_maxBands = 4, m_numBands = of_nat (length bands), m_bands = bands\<rparr>"

text \<open>
  A carrier \<open>[0, 4294967295]\<close> of bandwidth 4000000000 with two adjacent bandwidth parts
  of 2147483648 Hz each.
\<close>

definition wideCc :: ComponentCarrierInfo where
  "wideCc = (exampleCc 0 0 4294967295 4000000000 PRIMARY)
     \<lparr>cc_numBwps := 2,
      cc_bwp := [exampleBwp 0 0 2147483647 2147483648,
                 exampleBwp 1 2147483648 4294967295 2147483648]\<rparr>"

text \<open>
  The spec's dual-BWP scenario: a carrier of 400 MHz centred at 28.15 GHz with two
  bandwidth parts of 100 MHz centred at 28.0 GHz and 28.3 GHz.
\<close>

definition dualBwpCc :: ComponentCarrierInfo where
  "dualBwpCc = (exampleCc 0 27950000000 28350000000 400000000 PRIMARY)
     \<lparr>cc_numBwps := 2,
      cc_bwp := [exampleBwp 0 27950000000 28050000000 100000000,
                 exampleBwp 1 28250000000 28350000000 100000000]\<rparr>"

text \<open>The spec's overlap scenario: two carriers \<open>[0,100e6]\<close> and \<open>[50e6,150e6]\<close>.\<close>

definition overlappingCcs :: "ComponentCarrierInfo list" where
  "overlappingCcs = [exampleCc 0 0 100000000 100000000 PRIMARY,
                     exampleCc 1 50000000 150000000 100000000 SECONDARY]"

text \<open>
  One band with two carriers whose single, active bandwidth parts have 2147483648 Hz
  each.
\<close>

definition twoWideCcs :: ComponentCarrierBandwidthPartCreator where
  "twoWideCcs = exampleCreator [exampleBand 0 0 4294967295 4294967295
     [exampleCc 0 0 2147483647 2147483648 PRIMARY,
      exampleCc 1 2147483648 4294967295 2147483648 SECONDARY]]"

text \<open>The dual-BWP carrier alone in one band, with the given active id.\<close>

definition dualBwpCreator :: "u8 \<Rightarrow> ComponentCarrierBandwidthPartCreator" where
  "dualBwpCreator activeBwp = exampleCreator
     [exampleBand 0 27950000000 28350000000 400000000 [dualBwpCc\<lparr>cc_activeBwp := activeBwp\<rparr>]]"

text \<open>
  A UE with two carriers. A PHY is given by the centre frequency it is configured at and
  the HARQ feedback queued to it; a \<open>DlHarqInfo\<close> is given by its carrier indicator,
  which the manager routes on.
\<close>

record ExamplePhy =
  centerFrequency :: real
  dlHarqQueue :: "u8 list"

definition examplePhyEnqueue :: "u8 \<Rightarrow> ExamplePhy \<Rightarrow> ExamplePhy" where
  "examplePhyEnqueue m phy = phy\<lparr>dlHarqQueue := dlHarqQueue phy @ [m]\<rparr>"

definition twoCarrierUe :: "(u8, ExamplePhy) MmWaveUeNetDevice" where
  "twoCarrierUe =
     \<lparr>m_componentCarrierManager = Some (\<lambda>carrierIndicator. carrierIndicator),
      m_ccMap =
        [(0, \<lparr>ccue_dlEarfcn = 1,
               ccue_phy = \<lparr>centerFrequency = 28000000000, dlHarqQueue = []\<rparr>\<rparr>),
         (1, \<lparr>ccue_dlEarfcn = 2,
               ccue_phy = \<lparr>centerFrequency = 30000000000, dlHarqQueue = []\<rparr>\<rparr>)]\<rparr>"




text \<open>Two carriers \<open>[0,100]\<close> and \<open>[300,400]\<close>, 200 apart.\<close>

definition separatedCcs :: "ComponentCarrierInfo list" where
  "separatedCcs = [exampleCc 0 0 100 100 PRIMARY, exampleCc 1 300 400 100 SECONDARY]"

text \<open>
  Topologies of two bands, each with one carrier that fills it, the first carrier
  \<open>PRIMARY\<close>: adjacent bands \<open>[0,100]\<close> and \<open>[100,200]\<close>, disjoint bands \<open>[0,100]\<close> and
  \<open>[200,300]\<close>, overlapping bands \<open>[0,100]\<close> and \<open>[50,150]\<close>.
\<close>

definition adjacentBands :: "OperationBandInfo list" where
  "adjacentBands = [exampleBand 0 0 100 100 [exampleCc 0 0 100 100 PRIMARY],
                    exampleBand 1 100 200 100 [exampleCc 0 100 200 100 SECONDARY]]"

definition disjointBands :: "OperationBandInfo list" where
  "disjointBands = [exampleBand 0 0 100 100 [exampleCc 0 0 100 100 PRIMARY],
                    exampleBand 1 200 300 100 [exampleCc 0 200 300 100 SECONDARY]]"

definition overlappingBands :: "OperationBandInfo list" where
  "overlappingBands = [exampleBand 0 0 100 100 [exampleCc 0 0 100 100 PRIMARY],
                       exampleBand 1 50 150 100 [exampleCc 0 50 150 100 SECONDARY]]"

section \<open>Auxiliary lemmas\<close>

lemma ccOverlapLoop_negative_gap:
  assumes "c \<le> i" and "i + 1 < length ccs" and "i + 1 < numCcs"
    and "cc_lowerFrequency (ccs ! (i + 1)) - cc_higherFrequency (ccs ! i) < 0"
  shows "ccOverlapLoop ccs numCcs c contiguous = Inl (Abort ''CCs overlap'')"
  using assms
proof (induction ccs numCcs c contiguous rule: ccOverlapLoop.induct)
  case (1 ccs numCcs c contiguous)
  show ?case
  proof (cases "c = i")
    case True
    with "1.prems" show ?thesis
      by (subst ccOverlapLoop.simps) simp
  next
    case False
    with "1.prems" have "c + 1 \<le> i" by simp
    with 1 show ?thesis
      by (subst ccOverlapLoop.simps) auto
  qed
qed

lemma bwpScan_eq:
  "bwpScan cc bwps totalBandwidth activeFound =
     (if list_ex (\<lambda>a. bwp_higherFrequency a > cc_higherFrequency cc
                     \<or> bwp_lowerFrequency a < cc_lowerFrequency cc) bwps
      then Inl (Abort ''BWP part is out of the CC'')
      else Inr (totalBandwidth + sum_list (map bwp_bandwidth bwps),
                activeFound \<or> cc_activeBwp cc \<in> set (map bwp_bwpId bwps)))"
  by (induction bwps arbitrary: totalBandwidth activeFound) (auto simp: add.assoc)

lemma bwpOverlapLoop_eq:
  assumes "numBwps = length bwps"
  shows "bwpOverlapLoop bwps numBwps a =
     (if \<exists>i\<ge>a. i + 1 < length bwps \<and> bwp_higherFrequency (bwps ! i) > bwp_lowerFrequency (bwps ! (i + 1))
      then Inl (Abort ''BWPs shall not overlap'') else Inr ())"
  using assms
proof (induction bwps numBwps a rule: bwpOverlapLoop.induct)
  case (1 bwps numBwps a)
  show ?case
  proof (cases "a + 1 < length bwps")
    case False
    with "1.prems" show ?thesis
      by (subst bwpOverlapLoop.simps) auto
  next
    case inside: True
    show ?thesis
    proof (cases "bwp_higherFrequency (bwps ! a) > bwp_lowerFrequency (bwps ! (a + 1))")
      case True
      with inside "1.prems" show ?thesis
        by (subst bwpOverlapLoop.simps) auto
    next
      case False
      have step: "bwpOverlapLoop bwps numBwps a = bwpOverlapLoop bwps numBwps (a + 1)"
      proof -
        from inside "1.prems" have "a < numBwps - 1" by arith
        with inside False show ?thesis by (subst bwpOverlapLoop.simps) simp
      qed
      have ih: "bwpOverlapLoop bwps numBwps (a + 1) =
        (if \<exists>i\<ge>a + 1. i + 1 < length bwps \<and> bwp_higherFrequency (bwps ! i) > bwp_lowerFrequency (bwps ! (i + 1))
         then Inl (Abort ''BWPs shall not overlap'') else Inr ())"
      proof -
        from inside "1.prems" have "a < numBwps - 1" by arith
        with "1.IH" inside False "1.prems" show ?thesis by simp
      qed
      have "(\<exists>i\<ge>a. i + 1 < length bwps \<and> bwp_higherFrequency (bwps ! i) > bwp_lowerFrequency (bwps ! (i + 1)))
          \<longleftrightarrow> (\<exists>i\<ge>a + 1. i + 1 < length bwps \<and> bwp_higherFrequency (bwps ! i) > bwp_lowerFrequency (bwps ! (i + 1)))"
        using False by (metis Suc_eq_plus1 Suc_leI le_eq_less_or_eq Suc_leD)
      with step ih show ?thesis by simp
    qed
  qed
qed

lemma bwpRepeatedIdLoop_eq:
  assumes "numBwps = length bwps"
  shows "bwpRepeatedIdLoop bwps numBwps a =
     (if \<exists>i\<ge>a. i + 1 < length bwps \<and> bwp_bwpId (bwps ! i) = bwp_bwpId (bwps ! (i + 1))
      then Inl (Abort ''Repeated BWP id'') else Inr ())"
  using assms
proof (induction bwps numBwps a rule: bwpRepeatedIdLoop.induct)
  case (1 bwps numBwps a)
  show ?case
  proof (cases "a + 1 < length bwps")
    case False
    with "1.prems" show ?thesis
      by (subst bwpRepeatedIdLoop.simps) auto
  next
    case inside: True
    show ?thesis
    proof (cases "bwp_bwpId (bwps ! a) = bwp_bwpId (bwps ! (a + 1))")
      case True
      with inside "1.prems" show ?thesis
        by (subst bwpRepeatedIdLoop.simps) auto
    next
      case False
      have step: "bwpRepeatedIdLoop bwps numBwps a = bwpRepeatedIdLoop bwps numBwps (a + 1)"
      proof -
        from inside "1.prems" have "a < numBwps - 1" by arith
        with inside False show ?thesis by (subst bwpRepeatedIdLoop.simps) simp
      qed
      have ih: "bwpRepeatedIdLoop bwps numBwps (a + 1) =
        (if \<exists>i\<ge>a + 1. i + 1 < length bwps \<and> bwp_bwpId (bwps ! i) = bwp_bwpId (bwps ! (i + 1))
         then Inl (Abort ''Repeated BWP id'') else Inr ())"
      proof -
        from inside "1.prems" have "a < numBwps - 1" by arith
        with "1.IH" inside False "1.prems" show ?thesis by simp
      qed
      have "(\<exists>i\<ge>a. i + 1 < length bwps \<and> bwp_bwpId (bwps ! i) = bwp_bwpId (bwps ! (i + 1)))
          \<longleftrightarrow> (\<exists>i\<ge>a + 1. i + 1 < length bwps \<and> bwp_bwpId (bwps ! i) = bwp_bwpId (bwps ! (i + 1)))"
        using False by (metis Suc_eq_plus1 Suc_leI le_eq_less_or_eq Suc_leD)
      with step ih show ?thesis by simp
    qed
  qed
qed

lemma sorted_adjacent_distinct:
  fixes xs :: "'a::linorder list"
  assumes "sorted xs" and "\<forall>i. i + 1 < length xs \<longrightarrow> xs ! i \<noteq> xs ! (i + 1)"
  shows "distinct xs"
  using assms
proof (induction xs rule: induct_list012)
  case (3 x y zs)
  from "3.prems"(2) have xy: "x \<noteq> y" by (metis (no_types) add.commute length_Cons less_Suc_eq_0_disj nth_Cons_0 nth_Cons_Suc plus_1_eq_Suc zero_less_Suc add_0)
  have "\<forall>i. i + 1 < length (y # zs) \<longrightarrow> (y # zs) ! i \<noteq> (y # zs) ! (i + 1)"
    using "3.prems"(2) by (metis Suc_eq_plus1 Suc_less_eq length_Cons nth_Cons_Suc)
  with 3 have d: "distinct (y # zs)" by simp
  from "3.prems"(1) xy have "\<forall>z \<in> set (y # zs). x < z" by fastforce
  with d show ?case by auto
qed simp_all

lemma sorted_adjacent_eq_iff:
  fixes xs :: "'a::linorder list"
  assumes "sorted xs"
  shows "(\<exists>i. i + 1 < length xs \<and> xs ! i = xs ! (i + 1)) \<longleftrightarrow> \<not> distinct xs"
proof
  assume "\<exists>i. i + 1 < length xs \<and> xs ! i = xs ! (i + 1)"
  then show "\<not> distinct xs"
    by (metis Suc_eq_plus1 Suc_lessD n_not_Suc_n nth_eq_iff_index_eq)
next
  assume "\<not> distinct xs"
  with sorted_adjacent_distinct [OF assms] show "\<exists>i. i + 1 < length xs \<and> xs ! i = xs ! (i + 1)"
    by blast
qed

lemma unat_sum_list_no_wrap:
  fixes f :: "'b \<Rightarrow> u32"
  assumes "(\<Sum>x\<leftarrow>xs. unat (f x)) < 2 ^ 32"
  shows "unat (sum_list (map f xs)) = (\<Sum>x\<leftarrow>xs. unat (f x))"
  using assms
proof (induction xs)
  case (Cons x xs)
  then have "unat (sum_list (map f xs)) = (\<Sum>x\<leftarrow>xs. unat (f x))" by simp
  with Cons.prems show ?case
    by (simp add: unat_add_lem [THEN iffD1])
qed simp

lemma sum_list_sort_key:
  fixes f :: "'b \<Rightarrow> 'c::comm_monoid_add"
  shows "sum_list (map f (sort_key k xs)) = sum_list (map f xs)"
proof -
  have "mset (map f (sort_key k xs)) = mset (map f xs)" by simp
  then show ?thesis by (metis sum_mset_sum_list)
qed

lemma distinct_map_sort_key: "distinct (map f (sort_key k xs)) = distinct (map f xs)"
  by (simp add: distinct_map)

lemma CheckBwpsInCc_closed_form:
  assumes len: "length (cc_bwp cc) < 256"
    and sum: "(\<Sum>a\<leftarrow>cc_bwp cc. unat (bwp_bandwidth a)) < 2 ^ 32"
  shows "CheckBwpsInCc cc =
     (if length (cc_bwp cc) < 1 \<or> 4 < length (cc_bwp cc)
      then Inl (Abort ''The number of BWPs exceeds the maximum value (4)'')
      else if \<exists>a \<in> set (cc_bwp cc). bwp_higherFrequency a > cc_higherFrequency cc
                                  \<or> bwp_lowerFrequency a < cc_lowerFrequency cc
      then Inl (Abort ''BWP part is out of the CC'')
      else if unat (cc_bandwidth cc) < (\<Sum>a\<leftarrow>cc_bwp cc. unat (bwp_bandwidth a))
      then Inl (Abort ''Aggregated BWP is larger than carrier bandwidth'')
      else if cc_activeBwp cc \<notin> set (map bwp_bwpId (cc_bwp cc))
      then Inl (Abort ''The active BWP id was not found in the CC'')
      else if \<exists>i. i + 1 < length (cc_bwp cc)
            \<and> bwp_higherFrequency (sortBwpsByFrequency (cc_bwp cc) ! i)
                > bwp_lowerFrequency (sortBwpsByFrequency (cc_bwp cc) ! (i + 1))
      then Inl (Abort ''BWPs shall not overlap'')
      else if \<not> distinct (map bwp_bwpId (cc_bwp cc))
      then Inl (Abort ''Repeated BWP id'')
      else Inr (cc\<lparr>cc_bwp := sortBwpsById (sortBwpsByFrequency (cc_bwp cc))\<rparr>))"
proof -
  define bs where "bs = cc_bwp cc"
  define F where "F = sortBwpsByFrequency bs"
  define I where "I = sortBwpsById F"
  define numBwps where "numBwps = (of_nat (length bs) :: u8)"
  have n: "unat numBwps = length bs"
    using len by (simp add: numBwps_def bs_def unat_of_nat)
  have count: "(numBwps > 4 \<or> numBwps < 1) \<longleftrightarrow> (length bs < 1 \<or> 4 < length bs)"
    using n by (auto simp: word_less_nat_alt)
  have lenF: "length F = length bs" and setF: "set F = set bs"
    by (simp_all add: F_def sortBwpsByFrequency_def)
  have lenI: "length I = length bs"
    by (simp add: I_def sortBwpsById_def lenF)
  have total: "unat (sum_list (map bwp_bandwidth F)) = (\<Sum>a\<leftarrow>bs. unat (bwp_bandwidth a))"
    using sum unat_sum_list_no_wrap [of bwp_bandwidth bs]
    by (simp add: F_def sortBwpsByFrequency_def sum_list_sort_key bs_def)
  have scan: "bwpScan cc F 0 False =
     (if \<exists>a \<in> set bs. bwp_higherFrequency a > cc_higherFrequency cc
                        \<or> bwp_lowerFrequency a < cc_lowerFrequency cc
      then Inl (Abort ''BWP part is out of the CC'')
      else Inr (sum_list (map bwp_bandwidth F), cc_activeBwp cc \<in> set (map bwp_bwpId bs)))"
    by (simp add: bwpScan_eq list_ex_iff setF)
  have big: "(sum_list (map bwp_bandwidth F) > cc_bandwidth cc)
       \<longleftrightarrow> unat (cc_bandwidth cc) < (\<Sum>a\<leftarrow>bs. unat (bwp_bandwidth a))"
    by (simp add: word_less_nat_alt total)
  have overlap: "bwpOverlapLoop F (unat numBwps) 0 =
     (if \<exists>i. i + 1 < length bs \<and> bwp_higherFrequency (F ! i) > bwp_lowerFrequency (F ! (i + 1))
      then Inl (Abort ''BWPs shall not overlap'') else Inr ())"
    using bwpOverlapLoop_eq [of "unat numBwps" F 0] by (simp add: n lenF)
  have sortedI: "sorted (map bwp_bwpId I)"
    by (simp add: I_def sortBwpsById_def)
  have "(\<exists>i. i + 1 < length I \<and> bwp_bwpId (I ! i) = bwp_bwpId (I ! (i + 1)))
      \<longleftrightarrow> (\<exists>i. i + 1 < length (map bwp_bwpId I)
               \<and> map bwp_bwpId I ! i = map bwp_bwpId I ! (i + 1))"
    by (metis (no_types, lifting) Suc_eq_plus1 Suc_lessD length_map nth_map)
  also have "\<dots> \<longleftrightarrow> \<not> distinct (map bwp_bwpId I)"
    by (rule sorted_adjacent_eq_iff [OF sortedI])
  also have "\<dots> \<longleftrightarrow> \<not> distinct (map bwp_bwpId bs)"
    by (simp add: I_def F_def sortBwpsById_def sortBwpsByFrequency_def distinct_map_sort_key)
  finally have adj: "(\<exists>i. i + 1 < length I \<and> bwp_bwpId (I ! i) = bwp_bwpId (I ! (i + 1)))
      \<longleftrightarrow> \<not> distinct (map bwp_bwpId bs)" .
  have repeated: "bwpRepeatedIdLoop I (unat numBwps) 0 =
     (if \<not> distinct (map bwp_bwpId bs) then Inl (Abort ''Repeated BWP id'') else Inr ())"
    using bwpRepeatedIdLoop_eq [of "unat numBwps" I 0] adj by (simp add: n lenI)
  have "CheckBwpsInCc cc =
     (if numBwps > 4 \<or> numBwps < 1
      then Inl (Abort ''The number of BWPs exceeds the maximum value (4)'')
      else
        case bwpScan cc F 0 False of
          Inl e \<Rightarrow> Inl e
        | Inr (totalBandwidth, activeFound) \<Rightarrow>
            if totalBandwidth > cc_bandwidth cc
            then Inl (Abort ''Aggregated BWP is larger than carrier bandwidth'')
            else if activeFound = False
            then Inl (Abort ''The active BWP id was not found in the CC'')
            else
              (case bwpOverlapLoop F (unat numBwps) 0 of
                Inl e \<Rightarrow> Inl e
              | Inr _ \<Rightarrow>
                  (case bwpRepeatedIdLoop I (unat numBwps) 0 of
                    Inl e \<Rightarrow> Inl e
                  | Inr _ \<Rightarrow> Inr (cc\<lparr>cc_bwp := I\<rparr>))))"
    by (simp only: CheckBwpsInCc_def Let_def numBwps_def F_def I_def bs_def)
  also have "\<dots> =
     (if length bs < 1 \<or> 4 < length bs
      then Inl (Abort ''The number of BWPs exceeds the maximum value (4)'')
      else if \<exists>a \<in> set bs. bwp_higherFrequency a > cc_higherFrequency cc
                                  \<or> bwp_lowerFrequency a < cc_lowerFrequency cc
      then Inl (Abort ''BWP part is out of the CC'')
      else if unat (cc_bandwidth cc) < (\<Sum>a\<leftarrow>bs. unat (bwp_bandwidth a))
      then Inl (Abort ''Aggregated BWP is larger than carrier bandwidth'')
      else if cc_activeBwp cc \<notin> set (map bwp_bwpId bs)
      then Inl (Abort ''The active BWP id was not found in the CC'')
      else if \<exists>i. i + 1 < length bs
            \<and> bwp_higherFrequency (F ! i) > bwp_lowerFrequency (F ! (i + 1))
      then Inl (Abort ''BWPs shall not overlap'')
      else if \<not> distinct (map bwp_bwpId bs)
      then Inl (Abort ''Repeated BWP id'')
      else Inr (cc\<lparr>cc_bwp := I\<rparr>))"
    unfolding count scan overlap repeated by (auto simp: big)
  finally show ?thesis
    by (simp only: bs_def F_def I_def)
qed

lemma changeActiveInCcs_Some:
  assumes "changeActiveInCcs ccs ccId activeBwpId = Some ccs'"
  shows "\<exists>ci < length ccs. cc_ccId (ccs ! ci) = ccId
           \<and> activeBwpId \<in> set (map bwp_bwpId (cc_bwp (ccs ! ci)))
           \<and> ccs' = ccs[ci := (ccs ! ci)\<lparr>cc_activeBwp := activeBwpId\<rparr>]"
  using assms
proof (induction ccs arbitrary: ccs')
  case Nil
  then show ?case by simp
next
  case (Cons cc ccs)
  show ?case
  proof (cases "cc_ccId cc = ccId \<and> activeBwpId \<in> set (map bwp_bwpId (cc_bwp cc))")
    case True
    with Cons.prems have "ccs' = (cc # ccs)[0 := ((cc # ccs) ! 0)\<lparr>cc_activeBwp := activeBwpId\<rparr>]"
      by auto
    with True show ?thesis
      by (intro exI [of _ 0]) simp
  next
    case False
    with Cons.prems obtain rest where rest: "changeActiveInCcs ccs ccId activeBwpId = Some rest"
      and ccs': "ccs' = cc # rest"
      by auto
    from Cons.IH [OF rest] obtain ci where "ci < length ccs" "cc_ccId (ccs ! ci) = ccId"
      "activeBwpId \<in> set (map bwp_bwpId (cc_bwp (ccs ! ci)))"
      "rest = ccs[ci := (ccs ! ci)\<lparr>cc_activeBwp := activeBwpId\<rparr>]"
      by blast
    with ccs' show ?thesis
      by (intro exI [of _ "Suc ci"]) simp
  qed
qed

lemma changeActiveInBands_Some:
  assumes "changeActiveInBands bands bandId ccId activeBwpId = Some bands'"
  shows "\<exists>bi < length bands. \<exists>ci < length (band_cc (bands ! bi)).
           band_bandId (bands ! bi) = bandId
           \<and> cc_ccId (band_cc (bands ! bi) ! ci) = ccId
           \<and> activeBwpId \<in> set (map bwp_bwpId (cc_bwp (band_cc (bands ! bi) ! ci)))
           \<and> bands' = bands[bi := (bands ! bi)\<lparr>band_cc :=
                 (band_cc (bands ! bi))[ci :=
                    (band_cc (bands ! bi) ! ci)\<lparr>cc_activeBwp := activeBwpId\<rparr>]\<rparr>]"
  using assms
proof (induction bands arbitrary: bands')
  case Nil
  then show ?case by simp
next
  case (Cons band bands)
  show ?case
  proof (cases "band_bandId band = bandId
       \<and> changeActiveInCcs (band_cc band) ccId activeBwpId \<noteq> None")
    case True
    then obtain ccs where ccs: "changeActiveInCcs (band_cc band) ccId activeBwpId = Some ccs"
      by auto
    with True Cons.prems have bands': "bands' = band\<lparr>band_cc := ccs\<rparr> # bands"
      by simp
    from changeActiveInCcs_Some [OF ccs] obtain ci where "ci < length (band_cc band)"
      "cc_ccId (band_cc band ! ci) = ccId"
      "activeBwpId \<in> set (map bwp_bwpId (cc_bwp (band_cc band ! ci)))"
      "ccs = (band_cc band)[ci := (band_cc band ! ci)\<lparr>cc_activeBwp := activeBwpId\<rparr>]"
      by blast
    with True bands' show ?thesis
      by (intro exI [of _ 0]) auto
  next
    case False
    with Cons.prems obtain rest where
      rest: "changeActiveInBands bands bandId ccId activeBwpId = Some rest"
      and bands': "bands' = band # rest"
      by (auto split: option.splits if_splits)
    from Cons.IH [OF rest] obtain bi ci where "bi < length bands"
      "ci < length (band_cc (bands ! bi))" "band_bandId (bands ! bi) = bandId"
      "cc_ccId (band_cc (bands ! bi) ! ci) = ccId"
      "activeBwpId \<in> set (map bwp_bwpId (cc_bwp (band_cc (bands ! bi) ! ci)))"
      "rest = bands[bi := (bands ! bi)\<lparr>band_cc :=
                 (band_cc (bands ! bi))[ci :=
                    (band_cc (bands ! bi) ! ci)\<lparr>cc_activeBwp := activeBwpId\<rparr>]\<rparr>]"
      by blast
    with bands' show ?thesis
      by (intro exI [of _ "Suc bi"]) auto
  qed
qed

lemma find_bwp_by_id:
  "anId \<in> set (map bwp_bwpId bwps) \<Longrightarrow>
     \<exists>bwp. find (\<lambda>b. bwp_bwpId b = anId) bwps = Some bwp \<and> bwp_bwpId bwp = anId \<and> bwp \<in> set bwps"
  by (induction bwps) auto

lemma find_bwp_Some:
  "find (\<lambda>b. bwp_bwpId b = anId) bwps = Some bwp \<Longrightarrow> bwp_bwpId bwp = anId \<and> bwp \<in> set bwps"
  by (induction bwps) (auto split: if_splits)

lemma GetActiveBwpInfo_in_range:
  assumes "unat bandIndex < length (m_bands s)" and "bandIndex < m_maxBands s"
    and "unat ccIndex < length (band_cc (m_bands s ! unat bandIndex))"
    and "ccIndex < band_numCarriers (m_bands s ! unat bandIndex)"
  shows "GetActiveBwpInfo s bandIndex ccIndex =
     (case find (\<lambda>b. bwp_bwpId b =
                   cc_activeBwp (band_cc (m_bands s ! unat bandIndex) ! unat ccIndex))
             (cc_bwp (band_cc (m_bands s ! unat bandIndex) ! unat ccIndex)) of
        None \<Rightarrow> Inl (Abort ''Active BWP id is not found in the current CC'')
      | Some bwp \<Rightarrow> Inr bwp)"
proof -
  from assms(4) have "unat ccIndex < unat (band_numCarriers (m_bands s ! unat bandIndex))"
    by (simp add: word_less_nat_alt)
  then have cc: "\<not> int (unat ccIndex) > int (unat (band_numCarriers (m_bands s ! unat bandIndex))) - 1"
    by linarith
  from assms(3) have cc': "\<not> unat ccIndex > length (band_cc (m_bands s ! unat bandIndex)) - 1"
    by arith
  from assms(2) have b: "\<not> bandIndex \<ge> m_maxBands s"
    by simp
  from assms(1) have b': "\<not> unat bandIndex \<ge> length (m_bands s)" and ne: "m_bands s \<noteq> []"
    by auto
  from assms(3) have ne': "band_cc (m_bands s ! unat bandIndex) \<noteq> []"
    by auto
  show ?thesis
    unfolding GetActiveBwpInfo_def Let_def
    by (simp only: cc cc' b b' ne ne' if_False simp_thms)
qed

lemma GetActiveBwpInfo_Inr:
  assumes "GetActiveBwpInfo s bandIndex ccIndex = Inr bwp"
  shows "bwp_bwpId bwp = cc_activeBwp (band_cc (m_bands s ! unat bandIndex) ! unat ccIndex)
       \<and> bwp \<in> set (cc_bwp (band_cc (m_bands s ! unat bandIndex) ! unat ccIndex))"
  using assms
  by (auto simp: GetActiveBwpInfo_def Let_def split: if_splits option.splits dest: find_bwp_Some)

lemma aggregateBwps_eq:
  "aggregateBwps activeBwp bwps aBandwidth =
     aBandwidth + sum_list (map bwp_bandwidth (filter (\<lambda>bwp. bwp_bwpId bwp = activeBwp) bwps))"
  by (induction bwps arbitrary: aBandwidth) (simp_all add: add.assoc)

lemma aggregateCcs_eq:
  "aggregateCcs ccs aBandwidth =
     aBandwidth + (\<Sum>cc\<leftarrow>ccs. sum_list (map bwp_bandwidth (activeBwpsOfCc cc)))"
  by (induction ccs arbitrary: aBandwidth)
    (simp_all add: aggregateBwps_eq activeBwpsOfCc_def add.assoc)

lemma aggregateBands_eq:
  "aggregateBands bands aBandwidth =
     aBandwidth + (\<Sum>band\<leftarrow>bands. \<Sum>cc\<leftarrow>band_cc band.
                     sum_list (map bwp_bandwidth (activeBwpsOfCc cc)))"
  by (induction bands arbitrary: aBandwidth) (simp_all add: aggregateCcs_eq add.assoc)

lemma sum_list_map_concat_map:
  fixes h :: "'b \<Rightarrow> 'c::comm_monoid_add"
  shows "sum_list (map h (concat (map f xs))) = (\<Sum>x\<leftarrow>xs. sum_list (map h (f x)))"
  by (induction xs) simp_all

lemma GetAggregatedBandwidth_nested:
  "GetAggregatedBandwidth s =
     (\<Sum>band\<leftarrow>m_bands s. \<Sum>cc\<leftarrow>band_cc band. sum_list (map bwp_bandwidth (activeBwpsOfCc cc)))"
  by (simp add: GetAggregatedBandwidth_def aggregateBands_eq)

lemma GetAggregatedBandwidth_activeBwps:
  "GetAggregatedBandwidth s = sum_list (map bwp_bandwidth (activeBwps s))"
  by (simp only: GetAggregatedBandwidth_nested activeBwps_def sum_list_map_concat_map)

lemma unat_sum_list_mod:
  fixes f :: "'b \<Rightarrow> u32"
  shows "unat (sum_list (map f xs)) = (\<Sum>x\<leftarrow>xs. unat (f x)) mod 2 ^ 32"
proof (induction xs)
  case Nil
  show ?case by simp
next
  case (Cons x xs)
  have "unat (f x + sum_list (map f xs)) = (unat (f x) + unat (sum_list (map f xs))) mod 2 ^ 32"
    by (simp add: unat_word_ariths)
  also have "\<dots> = (unat (f x) + (\<Sum>x\<leftarrow>xs. unat (f x)) mod 2 ^ 32) mod 2 ^ 32"
    by (simp only: Cons.IH)
  also have "\<dots> = (unat (f x) + (\<Sum>x\<leftarrow>xs. unat (f x))) mod 2 ^ 32"
    by (rule mod_add_right_eq)
  finally show ?case by simp
qed

lemma sum_list_map_update:
  fixes h :: "'b \<Rightarrow> 'c::ab_group_add"
  assumes "i < length xs"
  shows "sum_list (map h (xs[i := y])) = sum_list (map h xs) - h (xs ! i) + h y"
  using assms
proof (induction xs arbitrary: i)
  case Nil
  then show ?case by simp
next
  case (Cons x xs)
  then show ?case
    by (cases i) (simp_all add: algebra_simps)
qed

lemma feedbackRnti_harqFeedbackOf [simp]: "feedbackRnti (harqFeedbackOf rnti tb) = rnti"
  by (simp add: harqFeedbackOf_def)

lemma endRxTransportBlock_harqEnabled [simp]:
  "harqEnabled (endRxTransportBlock sinr errorModel r phy) = harqEnabled phy"
  by (simp add: endRxTransportBlock_def Let_def split: option.splits)

lemma endRxTransportBlock_other:
  assumes "r \<noteq> rnti"
  shows "m_transportBlocks (endRxTransportBlock sinr errorModel r phy) rnti
           = m_transportBlocks phy rnti"
    and "harqFeedbackCount (endRxTransportBlock sinr errorModel r phy) rnti
           = harqFeedbackCount phy rnti"
  using assms
  by (simp_all add: endRxTransportBlock_def harqFeedbackCount_def Let_def split: option.splits)

lemma endRxTransportBlock_sent:
  assumes "feedbackSent phy rnti"
  shows "feedbackSent (endRxTransportBlock sinr errorModel r phy) rnti
       \<and> harqFeedbackCount (endRxTransportBlock sinr errorModel r phy) rnti
           = harqFeedbackCount phy rnti"
proof (cases "r = rnti")
  case True
  with assms show ?thesis
    by (auto simp: endRxTransportBlock_def feedbackSent_def harqFeedbackCount_def Let_def
        split: option.splits)
next
  case False
  with assms show ?thesis
    by (simp add: endRxTransportBlock_other feedbackSent_def)
qed

lemma endRxTransportBlock_pending:
  assumes "feedbackPending phy rnti" and "harqEnabled phy"
  shows "feedbackSent (endRxTransportBlock sinr errorModel rnti phy) rnti
       \<and> harqFeedbackCount (endRxTransportBlock sinr errorModel rnti phy) rnti
           = harqFeedbackCount phy rnti + 1"
  using assms
  by (auto simp: endRxTransportBlock_def feedbackSent_def feedbackPending_def
      harqFeedbackCount_def Let_def split: option.splits)

lemma EndRxData_sent:
  assumes "feedbackSent phy rnti"
  shows "feedbackSent (EndRxData sinr errorModel phy received) rnti
       \<and> harqFeedbackCount (EndRxData sinr errorModel phy received) rnti
           = harqFeedbackCount phy rnti"
  using assms
proof (induction received arbitrary: phy)
  case Nil
  then show ?case by (simp add: EndRxData_def)
next
  case (Cons r received)
  from endRxTransportBlock_sent [OF Cons.prems]
  have step: "feedbackSent (endRxTransportBlock sinr errorModel r phy) rnti"
    "harqFeedbackCount (endRxTransportBlock sinr errorModel r phy) rnti
       = harqFeedbackCount phy rnti"
    by simp_all
  from Cons.IH [OF step(1)] step(2) show ?case
    by (simp add: EndRxData_def)
qed

lemma EndRxData_pending:
  assumes "feedbackPending phy rnti" and "harqEnabled phy" and "rnti \<in> set received"
  shows "feedbackSent (EndRxData sinr errorModel phy received) rnti
       \<and> harqFeedbackCount (EndRxData sinr errorModel phy received) rnti
           = harqFeedbackCount phy rnti + 1"
  using assms
proof (induction received arbitrary: phy)
  case Nil
  then show ?case by simp
next
  case (Cons r received)
  show ?case
  proof (cases "r = rnti")
    case True
    from endRxTransportBlock_pending [OF Cons.prems(1,2)]
    have step: "feedbackSent (endRxTransportBlock sinr errorModel rnti phy) rnti"
      "harqFeedbackCount (endRxTransportBlock sinr errorModel rnti phy) rnti
         = harqFeedbackCount phy rnti + 1"
      by simp_all
    from EndRxData_sent [OF step(1)] step(2) True show ?thesis
      by (simp add: EndRxData_def)
  next
    case False
    with Cons.prems have pending: "feedbackPending (endRxTransportBlock sinr errorModel r phy) rnti"
      and enabled: "harqEnabled (endRxTransportBlock sinr errorModel r phy)"
      and rest: "rnti \<in> set received"
      by (simp_all add: feedbackPending_def endRxTransportBlock_other)
    from Cons.IH [OF pending enabled rest] False show ?thesis
      by (simp add: EndRxData_def endRxTransportBlock_other)
  qed
qed

lemma AddExpectedTb_pending:
  "feedbackPending (AddExpectedTb phy rnti ndi tbSize mcs rbMap harqId rv downlink symStart numSym) rnti"
  by (simp add: AddExpectedTb_def feedbackPending_def newTransportBlockInfo_def)

lemma AddExpectedTb_unchanged [simp]:
  "harqEnabled (AddExpectedTb phy rnti ndi tbSize mcs rbMap harqId rv downlink symStart numSym)
      = harqEnabled phy"
  "harqFeedbackCount (AddExpectedTb phy rnti ndi tbSize mcs rbMap harqId rv downlink symStart numSym) r
      = harqFeedbackCount phy r"
  by (simp_all add: AddExpectedTb_def harqFeedbackCount_def)

lemma contiguousnessLoop_well_formed:
  assumes "sorted (map cc_centralFrequency ccs)"
    and "list_all (\<lambda>cc. cc_lowerFrequency cc \<le> cc_centralFrequency cc
                        \<and> cc_centralFrequency cc \<le> cc_higherFrequency cc) ccs"
    and "n \<le> length ccs"
  shows "contiguousnessLoop ccs freqSeparation n i = Inr CONTIGUOUS"
  using assms
proof (induction ccs freqSeparation n i rule: contiguousnessLoop.induct)
  case (1 ccs freqSeparation n i)
  show ?case
  proof (cases "i < n - 1")
    case False
    then show ?thesis
      by (subst contiguousnessLoop.simps) simp
  next
    case True
    with "1.prems"(3) have inside: "i + 1 < length ccs" and i: "i < length ccs"
      by simp_all
    from "1.prems"(1) inside have "cc_centralFrequency (ccs ! i) \<le> cc_centralFrequency (ccs ! (i + 1))"
      using sorted_nth_mono [of "map cc_centralFrequency ccs" i "i + 1"] by simp
    moreover from "1.prems"(2) i have "cc_lowerFrequency (ccs ! i) \<le> cc_centralFrequency (ccs ! i)"
      by (simp add: list_all_length)
    moreover from "1.prems"(2) inside
    have "cc_centralFrequency (ccs ! (i + 1)) \<le> cc_higherFrequency (ccs ! (i + 1))"
      by (simp add: list_all_length)
    moreover have "0 \<le> real (unat freqSeparation)"
      by (rule of_nat_0_le_iff)
    ultimately have gap: "\<not> cc_lowerFrequency (ccs ! i) - cc_higherFrequency (ccs ! (i + 1))
        > real (unat freqSeparation)"
      by linarith
    from "1.IH" [OF True inside gap "1.prems"] True inside gap show ?thesis
      by (subst contiguousnessLoop.simps) simp
  qed
qed

lemma contiguousnessLoop_errors:
  "contiguousnessLoop ccs freqSeparation n i = Inl e \<Longrightarrow> e = OutOfRange"
proof (induction ccs freqSeparation n i rule: contiguousnessLoop.induct)
  case (1 ccs freqSeparation n i)
  from "1.prems" "1.IH" show ?case
    by (subst (asm) contiguousnessLoop.simps) (simp split: if_splits)
qed

lemma primaryCcs_simps [simp]:
  "primaryCcs [] = 0"
  "primaryCcs (cc # ccs) = (if cc_primaryCc cc = PRIMARY then 1 else 0) + primaryCcs ccs"
  "primaryCcs (xs @ ys) = primaryCcs xs + primaryCcs ys"
  by (simp_all add: primaryCcs_def)

lemma countPrimaryCcs_eq:
  "countPrimaryCcs ccs numPrimaryCcs = numPrimaryCcs + of_nat (primaryCcs ccs)"
  by (induction ccs arbitrary: numPrimaryCcs) simp_all

lemma otherBandsLoop_count:
  assumes "otherBandsLoop a i bs j numPrimaryCcs = Inr n"
  shows "n = numPrimaryCcs + of_nat (primaryCcs (concat (map band_cc bs)))"
  using assms
proof (induction bs arbitrary: j numPrimaryCcs)
  case Nil
  then show ?case by simp
next
  case (Cons b bs)
  from Cons.prems have "otherBandsLoop a i bs (j + 1)
      (countPrimaryCcs (band_cc b) numPrimaryCcs) = Inr n"
    by (simp split: if_splits)
  from Cons.IH [OF this] show ?case
    by (simp add: countPrimaryCcs_eq)
qed

lemma CheckBwpsInCc_primary:
  assumes "CheckBwpsInCc cc = Inr cc'"
  shows "cc_primaryCc cc' = cc_primaryCc cc"
  using assms
  by (auto simp: CheckBwpsInCc_def Let_def split: if_splits sum.splits prod.splits)

lemma checkBwpsInCcs_primary:
  assumes "checkBwpsInCcs ccs = Inr ccs'"
  shows "primaryCcs ccs' = primaryCcs ccs"
  using assms
proof (induction ccs arbitrary: ccs')
  case Nil
  then show ?case by simp
next
  case (Cons cc ccs)
  then obtain cc' rest where "CheckBwpsInCc cc = Inr cc'" "checkBwpsInCcs ccs = Inr rest"
    "ccs' = cc' # rest"
    by (auto split: sum.splits)
  with Cons.IH [of rest] CheckBwpsInCc_primary [of cc cc'] show ?case
    by simp
qed

lemma primaryCcs_sortCarriers: "primaryCcs (sortCarriers ccs) = primaryCcs ccs"
proof -
  have "mset (filter (\<lambda>cc. cc_primaryCc cc = PRIMARY) (sort_key cc_centralFrequency ccs))
      = mset (filter (\<lambda>cc. cc_primaryCc cc = PRIMARY) ccs)"
    by simp
  then show ?thesis
    unfolding primaryCcs_def sortCarriers_def by (metis size_mset)
qed

lemma ValidateOperationBand_primary:
  assumes "ValidateOperationBand band = Inr a"
  shows "primaryCcs (band_cc a) = primaryCcs (band_cc band)"
proof -
  from assms obtain ccs' where "checkBwpsInCcs (sortCarriers (band_cc band)) = Inr ccs'"
    and "band_cc a = ccs'"
    by (auto simp: ValidateOperationBand_def Let_def split: if_splits sum.splits)
  with checkBwpsInCcs_primary [of "sortCarriers (band_cc band)" ccs'] show ?thesis
    by (simp add: primaryCcs_sortCarriers)
qed

lemma primaryCcs_concat_update:
  assumes "i < length bands" and "primaryCcs (band_cc a) = primaryCcs (band_cc (bands ! i))"
  shows "primaryCcs (concat (map band_cc (bands[i := a])))
       = primaryCcs (concat (map band_cc bands))"
  using assms
proof (induction bands arbitrary: i)
  case Nil
  then show ?case by simp
next
  case (Cons b bands)
  then show ?case
    by (cases i) simp_all
qed

lemma bandsLoop_count:
  assumes "bandsLoop bands i numAggrCcs numPrimaryCcs = Inr (bands', numAggrCcs', n)"
  shows "n = numPrimaryCcs
           + of_nat ((length bands - i) * primaryCcs (concat (map band_cc bands)))"
  using assms
proof (induction bands i numAggrCcs numPrimaryCcs rule: bandsLoop.induct)
  case (1 bands i numAggrCcs numPrimaryCcs)
  show ?case
  proof (cases "i < length bands")
    case False
    with "1.prems" show ?thesis
      by (subst (asm) bandsLoop.simps) simp
  next
    case True
    with "1.prems" obtain a n1 where
      a: "ValidateOperationBand (bands ! i) = Inr a"
      and n1: "otherBandsLoop a i (bands[i := a]) 0 numPrimaryCcs = Inr n1"
      and rest: "bandsLoop (bands[i := a]) (i + 1) (numAggrCcs + ucast (band_numCarriers a)) n1
                   = Inr (bands', numAggrCcs', n)"
      by (subst (asm) bandsLoop.simps) (auto split: sum.splits)
    have same: "primaryCcs (concat (map band_cc (bands[i := a])))
              = primaryCcs (concat (map band_cc bands))"
      using True ValidateOperationBand_primary [OF a] by (rule primaryCcs_concat_update)
    from "1.IH" [OF True a n1 rest]
    have "n = n1 + of_nat ((length bands - (i + 1)) * primaryCcs (concat (map band_cc bands)))"
      by (simp add: same)
    moreover from otherBandsLoop_count [OF n1]
    have "n1 = numPrimaryCcs + of_nat (primaryCcs (concat (map band_cc bands)))"
      by (simp add: same)
    moreover from True have "length bands - i = Suc (length bands - (i + 1))"
      by simp
    ultimately show ?thesis
      by (simp add: algebra_simps)
  qed
qed

lemma otherBandsLoop_separated:
  assumes "k < length bs" and "i \<noteq> j + k"
    and "band_higherFrequency a < band_lowerFrequency (bs ! k)"
  shows "otherBandsLoop a i bs j numPrimaryCcs = Inl (Abort ''Bands shall not overlap'')"
  using assms
proof (induction bs arbitrary: j k numPrimaryCcs)
  case Nil
  then show ?case by simp
next
  case (Cons b bs)
  show ?case
  proof (cases k)
    case 0
    with Cons.prems show ?thesis by simp
  next
    case (Suc k')
    with Cons.prems have "k' < length bs" "i \<noteq> (j + 1) + k'"
      "band_higherFrequency a < band_lowerFrequency (bs ! k')"
      by simp_all
    from Cons.IH [OF this] show ?thesis
      by simp
  qed
qed

lemma otherBandsLoop_overlapping:
  assumes "list_all (\<lambda>b. band_lowerFrequency b \<le> band_higherFrequency a) bs"
  shows "\<exists>n. otherBandsLoop a i bs j numPrimaryCcs = Inr n"
  using assms
  by (induction bs arbitrary: j numPrimaryCcs) auto

lemma ccOverlapLoop_errors:
  "ccOverlapLoop ccs numCcs c contiguous = Inl e \<Longrightarrow> e = Abort ''CCs overlap'' \<or> e = OutOfRange"
proof (induction ccs numCcs c contiguous rule: ccOverlapLoop.induct)
  case (1 ccs numCcs c contiguous)
  show ?case
  proof (cases "c < numCcs - 1 \<and> c + 1 < length ccs
      \<and> \<not> cc_lowerFrequency (ccs ! (c + 1)) - cc_higherFrequency (ccs ! c) < 0")
    case True
    with "1.prems" have "ccOverlapLoop ccs numCcs (c + 1)
        (if cc_lowerFrequency (ccs ! (c + 1)) - cc_higherFrequency (ccs ! c) > 1
         then NON_CONTIGUOUS else contiguous) = Inl e"
      by (subst (asm) ccOverlapLoop.simps) simp
    with True show ?thesis
      by (intro "1.IH") simp_all
  next
    case False
    with "1.prems" show ?thesis
      by (subst (asm) ccOverlapLoop.simps) (simp split: if_splits)
  qed
qed

lemma bwpScan_errors:
  "bwpScan cc bwps totalBandwidth activeFound = Inl e \<Longrightarrow> e = Abort ''BWP part is out of the CC''"
  by (induction bwps arbitrary: totalBandwidth activeFound) (simp_all split: if_splits)

lemma bwpOverlapLoop_errors:
  "bwpOverlapLoop bwps numBwps a = Inl e \<Longrightarrow> e = Abort ''BWPs shall not overlap'' \<or> e = OutOfRange"
proof (induction bwps numBwps a rule: bwpOverlapLoop.induct)
  case (1 bwps numBwps a)
  show ?case
  proof (cases "a < numBwps - 1 \<and> a + 1 < length bwps
      \<and> \<not> bwp_higherFrequency (bwps ! a) > bwp_lowerFrequency (bwps ! (a + 1))")
    case True
    with "1.prems" have "bwpOverlapLoop bwps numBwps (a + 1) = Inl e"
      by (subst (asm) bwpOverlapLoop.simps) simp
    with True show ?thesis
      by (intro "1.IH") simp_all
  next
    case False
    with "1.prems" show ?thesis
      by (subst (asm) bwpOverlapLoop.simps) (simp split: if_splits)
  qed
qed

lemma bwpRepeatedIdLoop_errors:
  "bwpRepeatedIdLoop bwps numBwps i = Inl e \<Longrightarrow> e = Abort ''Repeated BWP id'' \<or> e = OutOfRange"
proof (induction bwps numBwps i rule: bwpRepeatedIdLoop.induct)
  case (1 bwps numBwps i)
  show ?case
  proof (cases "i < numBwps - 1 \<and> i + 1 < length bwps
      \<and> bwp_bwpId (bwps ! i) \<noteq> bwp_bwpId (bwps ! (i + 1))")
    case True
    with "1.prems" have "bwpRepeatedIdLoop bwps numBwps (i + 1) = Inl e"
      by (subst (asm) bwpRepeatedIdLoop.simps) simp
    with True show ?thesis
      by (intro "1.IH") simp_all
  next
    case False
    with "1.prems" show ?thesis
      by (subst (asm) bwpRepeatedIdLoop.simps) (simp split: if_splits)
  qed
qed

lemma CheckBwpsInCc_errors:
  assumes "CheckBwpsInCc cc = Inl e"
  shows "e \<in> {Abort ''The number of BWPs exceeds the maximum value (4)'',
              Abort ''BWP part is out of the CC'',
              Abort ''Aggregated BWP is larger than carrier bandwidth'',
              Abort ''The active BWP id was not found in the CC'',
              Abort ''BWPs shall not overlap'',
              Abort ''Repeated BWP id'',
              OutOfRange}"
proof -
  define numBwps where "numBwps = (of_nat (length (cc_bwp cc)) :: u8)"
  define F where "F = sortBwpsByFrequency (cc_bwp cc)"
  define I where "I = sortBwpsById F"
  note defs = CheckBwpsInCc_def Let_def numBwps_def [symmetric] F_def [symmetric] I_def [symmetric]
  show ?thesis
  proof (cases "numBwps > 4 \<or> numBwps < 1")
    case True
    with assms show ?thesis
      unfolding defs by simp
  next
    case count: False
    show ?thesis
    proof (cases "bwpScan cc F 0 False")
      case (Inl x)
      with assms count bwpScan_errors [OF Inl] show ?thesis
        unfolding defs by simp
    next
      case (Inr r)
      obtain totalBandwidth activeFound where r: "r = (totalBandwidth, activeFound)"
        by (cases r)
      show ?thesis
      proof (cases "totalBandwidth > cc_bandwidth cc \<or> activeFound = False")
        case True
        with assms count Inr r show ?thesis
          unfolding defs by (auto split: if_splits)
      next
        case scan: False
        show ?thesis
        proof (cases "bwpOverlapLoop F (unat numBwps) 0")
          case (Inl x)
          with assms count Inr r scan bwpOverlapLoop_errors [OF Inl] show ?thesis
            unfolding defs by auto
        next
          case ov: (Inr u)
          show ?thesis
          proof (cases "bwpRepeatedIdLoop I (unat numBwps) 0")
            case (Inl x)
            with assms count Inr r scan ov bwpRepeatedIdLoop_errors [OF Inl] show ?thesis
              unfolding defs by auto
          next
            case rep: (Inr v)
            with assms count Inr r scan ov show ?thesis
              unfolding defs by simp
          qed
        qed
      qed
    qed
  qed
qed

lemma CheckBwpsInCc_not_band_error:
  "CheckBwpsInCc cc \<noteq> Inl (Abort ''Bands shall not overlap'')"
proof
  assume "CheckBwpsInCc cc = Inl (Abort ''Bands shall not overlap'')"
  from CheckBwpsInCc_errors [OF this] show False
    by simp
qed

lemma checkBwpsInCcs_not_band_error:
  "checkBwpsInCcs ccs \<noteq> Inl (Abort ''Bands shall not overlap'')"
proof (induction ccs)
  case Nil
  show ?case by simp
next
  case (Cons cc ccs)
  show ?case
  proof (cases "CheckBwpsInCc cc")
    case (Inl e)
    with CheckBwpsInCc_not_band_error [of cc] show ?thesis
      by auto
  next
    case (Inr cc')
    with Cons.IH show ?thesis
      by (cases "checkBwpsInCcs ccs") auto
  qed
qed

lemma ValidateOperationBand_not_band_error:
  "ValidateOperationBand band \<noteq> Inl (Abort ''Bands shall not overlap'')"
proof
  assume a: "ValidateOperationBand band = Inl (Abort ''Bands shall not overlap'')"
  define ccs where "ccs = sortCarriers (band_cc band)"
  define numCcs where "numCcs = (of_nat (length (band_cc band)) :: u8)"
  note defs = ValidateOperationBand_def Let_def ccs_def [symmetric] numCcs_def [symmetric]
  show False
  proof (cases "ccOverlapLoop ccs (unat numCcs) 0 CONTIGUOUS")
    case (Inl e)
    with a ccOverlapLoop_errors [OF Inl] show False
      unfolding defs by (auto split: if_splits)
  next
    case (Inr contiguous)
    with a checkBwpsInCcs_not_band_error [of ccs] show False
      unfolding defs by (auto split: if_splits sum.splits)
  qed
qed

lemma ValidateOperationBand_frequencies:
  assumes "ValidateOperationBand band = Inr a"
  shows "band_lowerFrequency a = band_lowerFrequency band"
    and "band_higherFrequency a = band_higherFrequency band"
  using assms
  by (auto simp: ValidateOperationBand_def Let_def split: if_splits sum.splits)

lemma bandsLoop_separated:
  assumes "k \<le> i" and "i < length bands" and "j < length bands" and "i \<noteq> j"
    and "band_higherFrequency (bands ! i) < band_lowerFrequency (bands ! j)"
  shows "\<exists>e. bandsLoop bands k numAggrCcs numPrimaryCcs = Inl e"
  using assms
proof (induction bands k numAggrCcs numPrimaryCcs rule: bandsLoop.induct)
  case (1 bands k numAggrCcs numPrimaryCcs)
  from "1.prems" have k: "k < length bands"
    by simp
  show ?case
  proof (cases "ValidateOperationBand (bands ! k)")
    case (Inl e)
    with k show ?thesis
      by (subst bandsLoop.simps) simp
  next
    case (Inr a)
    note freq = ValidateOperationBand_frequencies [OF Inr]
    have hi: "band_higherFrequency (bands[k := a] ! i) = band_higherFrequency (bands ! i)"
      using k freq by (cases "k = i") simp_all
    have lo: "band_lowerFrequency (bands[k := a] ! j) = band_lowerFrequency (bands ! j)"
      using k freq by (cases "k = j") simp_all
    show ?thesis
    proof (cases "k = i")
      case True
      with "1.prems" hi lo
      have "otherBandsLoop a k (bands[k := a]) 0 numPrimaryCcs
          = Inl (Abort ''Bands shall not overlap'')"
        by (intro otherBandsLoop_separated [where k = j]) simp_all
      with k Inr show ?thesis
        by (subst bandsLoop.simps) simp
    next
      case False
      show ?thesis
      proof (cases "otherBandsLoop a k (bands[k := a]) 0 numPrimaryCcs")
        case (Inl e)
        with k Inr show ?thesis
          by (subst bandsLoop.simps) simp
      next
        case inner: (Inr n)
        from False "1.prems" hi lo
        have "\<exists>e. bandsLoop (bands[k := a]) (k + 1)
            (numAggrCcs + ucast (band_numCarriers a)) n = Inl e"
          by (intro "1.IH" [OF k Inr inner]) simp_all
        with k Inr inner show ?thesis
          by (subst bandsLoop.simps) simp
      qed
    qed
  qed
qed

lemma bandsLoop_overlapping:
  assumes "list_all (\<lambda>a. list_all (\<lambda>b. band_lowerFrequency b \<le> band_higherFrequency a) bands) bands"
  shows "bandsLoop bands k numAggrCcs numPrimaryCcs \<noteq> Inl (Abort ''Bands shall not overlap'')"
  using assms
proof (induction bands k numAggrCcs numPrimaryCcs rule: bandsLoop.induct)
  case (1 bands k numAggrCcs numPrimaryCcs)
  show ?case
  proof (cases "k < length bands")
    case False
    then show ?thesis
      by (subst bandsLoop.simps) simp
  next
    case k: True
    show ?thesis
    proof (cases "ValidateOperationBand (bands ! k)")
      case (Inl e)
      with k ValidateOperationBand_not_band_error [of "bands ! k"] show ?thesis
        by (subst bandsLoop.simps) auto
    next
      case (Inr a)
      note freq = ValidateOperationBand_frequencies [OF Inr]
      have known: "\<exists>x' \<in> set bands. band_lowerFrequency x = band_lowerFrequency x'
            \<and> band_higherFrequency x = band_higherFrequency x'"
        if "x \<in> set (bands[k := a])" for x
      proof (cases "x = a")
        case True
        with freq k show ?thesis
          by (intro bexI [of _ "bands ! k"]) simp_all
      next
        case False
        with that set_update_subset_insert [of bands k a] show ?thesis
          by auto
      qed
      have all: "list_all (\<lambda>x. list_all (\<lambda>y. band_lowerFrequency y \<le> band_higherFrequency x)
          (bands[k := a])) (bands[k := a])"
        unfolding list_all_iff
      proof (intro ballI)
        fix x y
        assume "x \<in> set (bands[k := a])" and "y \<in> set (bands[k := a])"
        with known obtain x' y' where "x' \<in> set bands" "y' \<in> set bands"
          "band_higherFrequency x = band_higherFrequency x'"
          "band_lowerFrequency y = band_lowerFrequency y'"
          by metis
        with "1.prems" show "band_lowerFrequency y \<le> band_higherFrequency x"
          by (simp add: list_all_iff)
      qed
      have "a \<in> set (bands[k := a])"
        using k by (simp add: set_update_memI)
      with all have "list_all (\<lambda>b. band_lowerFrequency b \<le> band_higherFrequency a) (bands[k := a])"
        by (simp add: list_all_iff)
      from otherBandsLoop_overlapping [OF this]
      obtain n where inner: "otherBandsLoop a k (bands[k := a]) 0 numPrimaryCcs = Inr n"
        by blast
      from "1.IH" [OF k Inr inner all] k Inr inner show ?thesis
        by (subst bandsLoop.simps) simp
    qed
  qed
qed

lemmas validation_simps =
  ValidateCaBwpConfiguration_def ValidateOperationBand_def CheckBwpsInCc_def
  sortCarriers_def sortBwpsByFrequency_def sortBwpsById_def bandsLoop.simps
  ccOverlapLoop.simps bwpOverlapLoop.simps bwpRepeatedIdLoop.simps
  exampleCreator_def exampleBand_def exampleCc_def exampleBwp_def

subsection \<open>Orders that the sort of the carriers can leave\<close>

lemma ValidateOperationBand_sorted:
  "ValidateOperationBand band = ValidateOperationBandSorted (sortCarriers (band_cc band)) band"
  by (simp add: ValidateOperationBand_def ValidateOperationBandSorted_def Let_def)

lemma filter_same_key_distinct:
  assumes "distinct (map f ys)" and "k \<in> set ys"
  shows "filter (\<lambda>x. f k = f x) ys = [k]"
  using assms
proof (induction ys)
  case Nil
  then show ?case by simp
next
  case (Cons y ys)
  show ?case
  proof (cases "y = k")
    case True
    with Cons.prems(1) have "\<forall>x \<in> set ys. f k \<noteq> f x"
      by auto
    then have "filter (\<lambda>x. f k = f x) ys = []"
      by (simp add: filter_empty_conv)
    with True show ?thesis
      by simp
  next
    case False
    with Cons.prems have k: "k \<in> set ys" and d: "distinct (map f ys)"
      by simp_all
    from k have "f k \<in> f ` set ys"
      by (rule imageI)
    with Cons.prems(1) have "f k \<noteq> f y"
      by auto
    with Cons.IH [OF d k] show ?thesis
      by simp
  qed
qed

lemma sort_key_unique:
  assumes "distinct (map f xs)" and "mset ys = mset xs" and "sorted (map f ys)"
  shows "sort_key f xs = ys"
proof (rule properties_for_sort_key)
  show "mset ys = mset xs"
    by (rule assms(2))
  show "sorted (map f ys)"
    by (rule assms(3))
  fix k
  assume k: "k \<in> set ys"
  from assms(2) have "mset (map f ys) = mset (map f xs)"
    by simp
  with assms(1) have d: "distinct (map f ys)"
    by (metis mset_eq_imp_distinct_iff)
  from assms(2) k have "k \<in> set xs"
    by (metis mset_eq_setD)
  with filter_same_key_distinct [OF d k] filter_same_key_distinct [OF assms(1)]
  show "filter (\<lambda>x. f k = f x) ys = filter (\<lambda>x. f k = f x) xs"
    by simp
qed

subsection \<open>The feedback delivered for a registered block\<close>








lemma AddExpectedTb_calls [simp]:
  "harqFeedbackFor (AddExpectedTb phy rnti ndi tbSize mcs rbMap harqId rv downlink symStart numSym) r
      = harqFeedbackFor phy r"
  by (simp add: AddExpectedTb_def harqFeedbackFor_def)

subsection \<open>The carrier map entry that an update changes\<close>

lemma update_at_position:
  assumes "map_of al k = Some v"
  shows "\<exists>p < length al. al ! p = (k, v) \<and> AList.update k w al = al[p := (k, w)]"
  using assms
proof (induction al)
  case Nil
  then show ?case by simp
next
  case (Cons entry al)
  show ?case
  proof (cases "fst entry = k")
    case True
    with Cons.prems have "entry = (k, v)"
      by (cases entry) simp
    then have "(entry # al) ! 0 = (k, v) \<and> AList.update k w (entry # al) = (entry # al)[0 := (k, w)]"
      by simp
    then show ?thesis
      by (intro exI [of _ 0]) simp
  next
    case False
    with Cons.prems have "map_of al k = Some v"
      by (cases entry) (simp split: if_splits)
    from Cons.IH [OF this] obtain p where p: "p < length al" "al ! p = (k, v)"
      "AList.update k w al = al[p := (k, w)]"
      by blast
    from False p have "Suc p < length (entry # al) \<and> (entry # al) ! Suc p = (k, v)
        \<and> AList.update k w (entry # al) = (entry # al)[Suc p := (k, w)]"
      by (cases entry) simp
    then show ?thesis
      by (intro exI [of _ "Suc p"]) simp
  qed
qed

section \<open>Properties\<close>

text \<open>
  C1. \<open>GetCcContiguousnessState\<close> is to return \<open>NON_CONTIGUOUS\<close> exactly when some
  adjacent pair of the sorted carriers has a gap (lower bound of carrier \<open>i+1\<close> minus
  higher bound of carrier \<open>i\<close>) above the threshold, and to fail with an overlap error
  exactly when some gap is negative. The code subtracts the higher bound of carrier
  \<open>i+1\<close> from the lower bound of carrier \<open>i\<close> and has no overlap error. So for every
  band whose carriers have their central frequency between their bounds, and whose
  \<open>m_numCarriers\<close> is at least 1 and at most the number of carriers, it returns
  \<open>CONTIGUOUS\<close> whatever the gaps and the threshold are; and it never fails with an
  overlap error.
\<close>

theorem GetCcContiguousnessState_ignores_gap:
  "(list_all (\<lambda>cc. cc_lowerFrequency cc \<le> cc_centralFrequency cc
                     \<and> cc_centralFrequency cc \<le> cc_higherFrequency cc) (band_cc band)
     \<and> 1 \<le> band_numCarriers band \<and> unat (band_numCarriers band) \<le> length (band_cc band)
     \<longrightarrow> GetCcContiguousnessState band freqSeparation
          = Inr (CONTIGUOUS, band\<lparr>band_cc := sortCarriers (band_cc band)\<rparr>))
   \<and> GetCcContiguousnessState band freqSeparation \<noteq> Inl (Abort ''CCs overlap'')"
proof (intro conjI impI)
  assume a: "list_all (\<lambda>cc. cc_lowerFrequency cc \<le> cc_centralFrequency cc
                     \<and> cc_centralFrequency cc \<le> cc_higherFrequency cc) (band_cc band)
     \<and> 1 \<le> band_numCarriers band \<and> unat (band_numCarriers band) \<le> length (band_cc band)"
  have "sorted (map cc_centralFrequency (sortCarriers (band_cc band)))"
    by (simp add: sortCarriers_def)
  moreover from a have "list_all (\<lambda>cc. cc_lowerFrequency cc \<le> cc_centralFrequency cc
                     \<and> cc_centralFrequency cc \<le> cc_higherFrequency cc) (sortCarriers (band_cc band))"
    by (simp add: list_all_iff sortCarriers_def)
  moreover from a have "unat (band_numCarriers band) \<le> length (sortCarriers (band_cc band))"
    by (simp add: sortCarriers_def)
  ultimately have "contiguousnessLoop (sortCarriers (band_cc band)) freqSeparation
      (unat (band_numCarriers band)) 0 = Inr CONTIGUOUS"
    by (rule contiguousnessLoop_well_formed)
  moreover from a have "1 \<le> band_numCarriers band"
    by simp
  then have "\<not> band_numCarriers band < 1"
    by (simp only: not_less)
  ultimately show "GetCcContiguousnessState band freqSeparation
          = Inr (CONTIGUOUS, band\<lparr>band_cc := sortCarriers (band_cc band)\<rparr>)"
    by (simp add: GetCcContiguousnessState_def Let_def)
next
  show "GetCcContiguousnessState band freqSeparation \<noteq> Inl (Abort ''CCs overlap'')"
    by (auto simp: GetCcContiguousnessState_def Let_def split: sum.splits
        dest: contiguousnessLoop_errors)
qed

theorem GetCcContiguousnessState_ignores_gap_witness:
  "real (unat (1 :: u32))
     < cc_lowerFrequency (sortCarriers separatedCcs ! 1)
       - cc_higherFrequency (sortCarriers separatedCcs ! 0)
   \<and> GetCcContiguousnessState (exampleBand 0 0 400 400 separatedCcs) 1
     = Inr (CONTIGUOUS, exampleBand 0 0 400 400 separatedCcs)
   \<and> cc_lowerFrequency (sortCarriers overlappingCcs ! 1)
       - cc_higherFrequency (sortCarriers overlappingCcs ! 0) < 0
   \<and> GetCcContiguousnessState (exampleBand 0 0 150000000 150000000 overlappingCcs) 1
     = Inr (CONTIGUOUS, exampleBand 0 0 150000000 150000000 overlappingCcs)"
proof -
  have gap: "real (unat (1 :: u32))
     < cc_lowerFrequency (sortCarriers separatedCcs ! 1)
       - cc_higherFrequency (sortCarriers separatedCcs ! 0)"
    by (simp add: separatedCcs_def sortCarriers_def exampleCc_def)
  have neg: "cc_lowerFrequency (sortCarriers overlappingCcs ! 1)
       - cc_higherFrequency (sortCarriers overlappingCcs ! 0) < 0"
    by (simp add: overlappingCcs_def sortCarriers_def exampleCc_def)
  have wf: "list_all (\<lambda>cc. cc_lowerFrequency cc \<le> cc_centralFrequency cc
                     \<and> cc_centralFrequency cc \<le> cc_higherFrequency cc)
              (band_cc (exampleBand 0 0 400 400 separatedCcs))
     \<and> 1 \<le> band_numCarriers (exampleBand 0 0 400 400 separatedCcs)
     \<and> unat (band_numCarriers (exampleBand 0 0 400 400 separatedCcs))
         \<le> length (band_cc (exampleBand 0 0 400 400 separatedCcs))"
    by (simp add: exampleBand_def separatedCcs_def exampleCc_def)
  have wf': "list_all (\<lambda>cc. cc_lowerFrequency cc \<le> cc_centralFrequency cc
                     \<and> cc_centralFrequency cc \<le> cc_higherFrequency cc)
              (band_cc (exampleBand 0 0 150000000 150000000 overlappingCcs))
     \<and> 1 \<le> band_numCarriers (exampleBand 0 0 150000000 150000000 overlappingCcs)
     \<and> unat (band_numCarriers (exampleBand 0 0 150000000 150000000 overlappingCcs))
         \<le> length (band_cc (exampleBand 0 0 150000000 150000000 overlappingCcs))"
    by (simp add: exampleBand_def overlappingCcs_def exampleCc_def)
  have sorted: "sortCarriers separatedCcs = separatedCcs"
    "sortCarriers overlappingCcs = overlappingCcs"
    by (simp_all add: separatedCcs_def overlappingCcs_def sortCarriers_def exampleCc_def)
  from GetCcContiguousnessState_ignores_gap
    [where band = "exampleBand 0 0 400 400 separatedCcs" and freqSeparation = 1] wf
  have "GetCcContiguousnessState (exampleBand 0 0 400 400 separatedCcs) 1
     = Inr (CONTIGUOUS, exampleBand 0 0 400 400 separatedCcs)"
    by (simp add: exampleBand_def sorted)
  moreover from GetCcContiguousnessState_ignores_gap
    [where band = "exampleBand 0 0 150000000 150000000 overlappingCcs" and freqSeparation = 1] wf'
  have "GetCcContiguousnessState (exampleBand 0 0 150000000 150000000 overlappingCcs) 1
     = Inr (CONTIGUOUS, exampleBand 0 0 150000000 150000000 overlappingCcs)"
    by (simp add: exampleBand_def sorted)
  ultimately show ?thesis
    using gap neg by simp
qed

text \<open>
  C2. \<open>ValidateCaBwpConfiguration\<close> is to succeed exactly when one carrier of the whole
  topology is \<open>PRIMARY\<close>, whatever the number of bands. The code counts the primary
  carriers of all bands once for every band \<open>a\<close> of the outer loop, so the count it
  compares with 1 is the number of bands times the number of primary carriers: every
  topology with exactly one primary carrier and a number of bands other than one is
  rejected.
\<close>

theorem ValidateCaBwpConfiguration_counts_primary_per_band:
  assumes "primaryCcs (concat (map band_cc (m_bands s))) = 1"
    and "length (m_bands s) \<noteq> 1"
  shows "\<exists>e. ValidateCaBwpConfiguration MAX_CC_INTER_BAND s = Inl e"
proof (rule ccontr)
  assume "\<not> (\<exists>e. ValidateCaBwpConfiguration MAX_CC_INTER_BAND s = Inl e)"
  then obtain s' where ok: "ValidateCaBwpConfiguration MAX_CC_INTER_BAND s = Inr s'"
    by (cases "ValidateCaBwpConfiguration MAX_CC_INTER_BAND s") auto
  then obtain bands' numAggrCcs n where
    len: "unat (m_numBands s) = length (m_bands s)"
    and loop: "bandsLoop (m_bands s) 0 0 0 = Inr (bands', numAggrCcs, n)"
    and one: "n = 1"
    by (auto simp: ValidateCaBwpConfiguration_def split: if_splits sum.splits prod.splits)
  from bandsLoop_count [OF loop] assms(1) one
  have "(of_nat (length (m_bands s)) :: u8) = 1"
    by simp
  with len have "m_numBands s = 1"
    by (metis of_nat_unat ucast_id)
  with len assms(2) show False
    by simp
qed

theorem ValidateCaBwpConfiguration_counts_primary_per_band_witness:
  "primaryCcs (concat (map band_cc (m_bands (exampleCreator adjacentBands)))) = 1
   \<and> length (m_bands (exampleCreator adjacentBands)) = 2
   \<and> ValidateCaBwpConfiguration 16 (exampleCreator adjacentBands)
       = Inl (Abort ''There must be one primary CC'')
   \<and> ValidateCaBwpConfiguration 16 (exampleCreator [adjacentBands ! 0])
       = Inr (exampleCreator [adjacentBands ! 0])"
proof -
  have one: "primaryCcs (concat (map band_cc (m_bands (exampleCreator adjacentBands)))) = 1"
    by (simp add: adjacentBands_def exampleCreator_def exampleBand_def exampleCc_def)
  have two: "length (m_bands (exampleCreator adjacentBands)) = 2"
    by (simp add: adjacentBands_def exampleCreator_def)
  then have "length (m_bands (exampleCreator adjacentBands)) \<noteq> 1"
    by simp
  from ValidateCaBwpConfiguration_counts_primary_per_band [OF one this, of 16]
  obtain e where rejected: "ValidateCaBwpConfiguration 16 (exampleCreator adjacentBands) = Inl e"
    by blast
  have "ValidateCaBwpConfiguration 16 (exampleCreator adjacentBands)
       = Inl (Abort ''There must be one primary CC'')"
    by (simp add: adjacentBands_def validation_simps)
  moreover have "ValidateCaBwpConfiguration 16 (exampleCreator [adjacentBands ! 0])
       = Inr (exampleCreator [adjacentBands ! 0])"
    by (simp add: adjacentBands_def validation_simps)
  ultimately show ?thesis
    using one two rejected by simp
qed

text \<open>
  C3. \<open>ValidateCaBwpConfiguration\<close> is to abort with the band-overlap error whenever two
  bands overlap in frequency, and never for pairwise disjoint bands. The code aborts
  when the higher bound of one band is below the lower bound of another: every topology
  that has a band lying wholly below another one is rejected, and in a topology where
  no band lies wholly below another one (all bands overlap or touch each other) the
  band-overlap error never occurs.
\<close>

theorem ValidateCaBwpConfiguration_band_check_inverted:
  "(i < length (m_bands s) \<and> j < length (m_bands s) \<and> i \<noteq> j
     \<and> band_higherFrequency (m_bands s ! i) < band_lowerFrequency (m_bands s ! j)
     \<longrightarrow> (\<exists>e. ValidateCaBwpConfiguration MAX_CC_INTER_BAND s = Inl e))
   \<and> (list_all (\<lambda>a. list_all (\<lambda>b. band_lowerFrequency b \<le> band_higherFrequency a) (m_bands s))
         (m_bands s)
     \<longrightarrow> ValidateCaBwpConfiguration MAX_CC_INTER_BAND s \<noteq> Inl (Abort ''Bands shall not overlap''))"
proof (intro conjI impI)
  assume "i < length (m_bands s) \<and> j < length (m_bands s) \<and> i \<noteq> j
     \<and> band_higherFrequency (m_bands s ! i) < band_lowerFrequency (m_bands s ! j)"
  then have "\<exists>e. bandsLoop (m_bands s) 0 0 0 = Inl e"
    by (intro bandsLoop_separated [where i = i and j = j]) simp_all
  then show "\<exists>e. ValidateCaBwpConfiguration MAX_CC_INTER_BAND s = Inl e"
    by (auto simp: ValidateCaBwpConfiguration_def)
next
  assume "list_all (\<lambda>a. list_all (\<lambda>b. band_lowerFrequency b \<le> band_higherFrequency a) (m_bands s))
         (m_bands s)"
  from bandsLoop_overlapping [OF this, of 0 0 0]
  have loop: "bandsLoop (m_bands s) 0 0 0 \<noteq> Inl (Abort ''Bands shall not overlap'')" .
  show "ValidateCaBwpConfiguration MAX_CC_INTER_BAND s \<noteq> Inl (Abort ''Bands shall not overlap'')"
  proof (cases "bandsLoop (m_bands s) 0 0 0")
    case (Inl e)
    with loop show ?thesis
      by (simp add: ValidateCaBwpConfiguration_def)
  next
    case (Inr r)
    then show ?thesis
      by (cases r) (simp add: ValidateCaBwpConfiguration_def)
  qed
qed

theorem ValidateCaBwpConfiguration_band_check_inverted_witness:
  "band_higherFrequency (m_bands (exampleCreator disjointBands) ! 0)
     < band_lowerFrequency (m_bands (exampleCreator disjointBands) ! 1)
   \<and> ValidateCaBwpConfiguration 16 (exampleCreator disjointBands)
       = Inl (Abort ''Bands shall not overlap'')
   \<and> list_all (\<lambda>a. list_all (\<lambda>b. band_lowerFrequency b \<le> band_higherFrequency a)
         (m_bands (exampleCreator overlappingBands))) (m_bands (exampleCreator overlappingBands))
   \<and> ValidateCaBwpConfiguration 16 (exampleCreator overlappingBands)
       = Inl (Abort ''There must be one primary CC'')"
proof -
  have below: "0 < length (m_bands (exampleCreator disjointBands))
     \<and> 1 < length (m_bands (exampleCreator disjointBands)) \<and> (0 :: nat) \<noteq> 1
     \<and> band_higherFrequency (m_bands (exampleCreator disjointBands) ! 0)
         < band_lowerFrequency (m_bands (exampleCreator disjointBands) ! 1)"
    by (simp add: disjointBands_def exampleCreator_def exampleBand_def)
  have overlap: "list_all (\<lambda>a. list_all (\<lambda>b. band_lowerFrequency b \<le> band_higherFrequency a)
         (m_bands (exampleCreator overlappingBands))) (m_bands (exampleCreator overlappingBands))"
    by (simp add: overlappingBands_def exampleCreator_def exampleBand_def)
  from ValidateCaBwpConfiguration_band_check_inverted
    [where s = "exampleCreator disjointBands" and i = 0 and j = 1
       and MAX_CC_INTER_BAND = 16] below
  obtain e where "ValidateCaBwpConfiguration 16 (exampleCreator disjointBands) = Inl e"
    by blast
  moreover from ValidateCaBwpConfiguration_band_check_inverted
    [where s = "exampleCreator overlappingBands" and MAX_CC_INTER_BAND = 16] overlap
  have "ValidateCaBwpConfiguration 16 (exampleCreator overlappingBands)
      \<noteq> Inl (Abort ''Bands shall not overlap'')"
    by blast
  moreover have "ValidateCaBwpConfiguration 16 (exampleCreator disjointBands)
       = Inl (Abort ''Bands shall not overlap'')"
    by (simp add: disjointBands_def validation_simps)
  moreover have "ValidateCaBwpConfiguration 16 (exampleCreator overlappingBands)
       = Inl (Abort ''There must be one primary CC'')"
    by (simp add: overlappingBands_def validation_simps)
  ultimately show ?thesis
    using below overlap by simp
qed

text \<open>
  C4. \<open>CheckBwpsInCc\<close> is to abort exactly when one of the six conditions of
  \<open>bwpConfigurationInvalid\<close> holds, and to return normally otherwise. As stated this
  fails where the code's counters wrap: the bandwidth parts of \<open>wideCc\<close> sum to
  4294967296, above the carrier bandwidth 4000000000, but the \<open>uint32_t\<close> sum is 0 and
  the carrier is accepted.
\<close>

theorem CheckBwpsInCc_wraps_counterexample:
  "unat (cc_bandwidth wideCc) < sum_list (map (unat \<circ> bwp_bandwidth) (cc_bwp wideCc))
   \<and> bwpConfigurationInvalid wideCc
   \<and> CheckBwpsInCc wideCc = Inr wideCc"
  by (simp add: bwpConfigurationInvalid_def CheckBwpsInCc_def wideCc_def exampleCc_def
      exampleBwp_def sortBwpsByFrequency_def sortBwpsById_def bwpOverlapLoop.simps
      bwpRepeatedIdLoop.simps)

text \<open>
  C4, amended. Every carrier for which none of the six conditions holds is accepted:
  \<open>CheckBwpsInCc\<close> returns normally, leaving the carrier with its bandwidth parts sorted
  by id. Every carrier for which one of the six conditions holds, which has fewer than
  256 bandwidth parts and whose bandwidths sum to less than \<open>2^32\<close> (so that neither
  the \<open>uint8_t\<close> count nor the \<open>uint32_t\<close> sum wraps), is rejected with a configuration
  error.
\<close>

theorem CheckBwpsInCc_aborts_iff:
  "(bwpConfigurationInvalid cc = False \<longrightarrow>
      CheckBwpsInCc cc = Inr (cc\<lparr>cc_bwp := sortBwpsById (sortBwpsByFrequency (cc_bwp cc))\<rparr>))
   \<and> (length (cc_bwp cc) < 256 \<and> (\<Sum>a\<leftarrow>cc_bwp cc. unat (bwp_bandwidth a)) < 2 ^ 32
        \<and> bwpConfigurationInvalid cc \<longrightarrow>
      (\<exists>msg. CheckBwpsInCc cc = Inl (Abort msg)))"
proof (intro conjI impI)
  assume valid: "bwpConfigurationInvalid cc = False"
  then have "length (cc_bwp cc) \<le> 4"
    and "(\<Sum>a\<leftarrow>cc_bwp cc. unat (bwp_bandwidth a)) \<le> unat (cc_bandwidth cc)"
    by (auto simp: bwpConfigurationInvalid_def)
  moreover have "unat (cc_bandwidth cc) < 2 ^ 32"
    using unsigned_less [of "cc_bandwidth cc", where ?'a = nat] by simp
  ultimately have len: "length (cc_bwp cc) < 256"
    and sum: "(\<Sum>a\<leftarrow>cc_bwp cc. unat (bwp_bandwidth a)) < 2 ^ 32"
    by simp_all
  from valid
  show "CheckBwpsInCc cc = Inr (cc\<lparr>cc_bwp := sortBwpsById (sortBwpsByFrequency (cc_bwp cc))\<rparr>)"
    unfolding CheckBwpsInCc_closed_form [OF len sum] bwpConfigurationInvalid_def
    by auto
next
  assume a: "length (cc_bwp cc) < 256 \<and> (\<Sum>a\<leftarrow>cc_bwp cc. unat (bwp_bandwidth a)) < 2 ^ 32
        \<and> bwpConfigurationInvalid cc"
  then have len: "length (cc_bwp cc) < 256"
    and sum: "(\<Sum>a\<leftarrow>cc_bwp cc. unat (bwp_bandwidth a)) < 2 ^ 32"
    and invalid: "bwpConfigurationInvalid cc"
    by simp_all
  from invalid show "\<exists>msg. CheckBwpsInCc cc = Inl (Abort msg)"
    unfolding CheckBwpsInCc_closed_form [OF len sum] bwpConfigurationInvalid_def
    by auto
qed

theorem CheckBwpsInCc_aborts_iff_witness:
  "bwpConfigurationInvalid dualBwpCc = False
   \<and> CheckBwpsInCc dualBwpCc = Inr dualBwpCc
   \<and> length (cc_bwp (dualBwpCc\<lparr>cc_activeBwp := 7\<rparr>)) < 256
   \<and> (\<Sum>a\<leftarrow>cc_bwp (dualBwpCc\<lparr>cc_activeBwp := 7\<rparr>). unat (bwp_bandwidth a)) < 2 ^ 32
   \<and> bwpConfigurationInvalid (dualBwpCc\<lparr>cc_activeBwp := 7\<rparr>)
   \<and> (\<exists>msg. CheckBwpsInCc (dualBwpCc\<lparr>cc_activeBwp := 7\<rparr>) = Inl (Abort msg))"
proof -
  have valid: "bwpConfigurationInvalid dualBwpCc = False"
    by (simp add: bwpConfigurationInvalid_def dualBwpCc_def exampleCc_def exampleBwp_def
        sortBwpsByFrequency_def)
  have sorted: "sortBwpsById (sortBwpsByFrequency (cc_bwp dualBwpCc)) = cc_bwp dualBwpCc"
    by (simp add: dualBwpCc_def exampleBwp_def sortBwpsByFrequency_def sortBwpsById_def)
  from CheckBwpsInCc_aborts_iff [of dualBwpCc] valid sorted
  have accepted: "CheckBwpsInCc dualBwpCc = Inr dualBwpCc"
    by simp
  have invalid: "length (cc_bwp (dualBwpCc\<lparr>cc_activeBwp := 7\<rparr>)) < 256
      \<and> (\<Sum>a\<leftarrow>cc_bwp (dualBwpCc\<lparr>cc_activeBwp := 7\<rparr>). unat (bwp_bandwidth a)) < 2 ^ 32
      \<and> bwpConfigurationInvalid (dualBwpCc\<lparr>cc_activeBwp := 7\<rparr>)"
    by (simp add: bwpConfigurationInvalid_def dualBwpCc_def exampleCc_def exampleBwp_def)
  from CheckBwpsInCc_aborts_iff [of "dualBwpCc\<lparr>cc_activeBwp := 7\<rparr>"] invalid
  have "\<exists>msg. CheckBwpsInCc (dualBwpCc\<lparr>cc_activeBwp := 7\<rparr>) = Inl (Abort msg)"
    by blast
  with valid accepted invalid show ?thesis
    by simp
qed

text \<open>
  C5. \<open>ValidateOperationBand\<close> is to abort with \<open>CCs overlap\<close> for every band in which
  two carriers adjacent in ascending central frequency have a negative gap. As stated
  this fails for a band whose declared \<open>m_numCarriers\<close> differs from the number of its
  carriers: the two overlapping carriers \<open>[0,100e6]\<close> and \<open>[50e6,150e6]\<close> in a band that
  declares three carriers abort with the count-mismatch error before the overlap loop
  is reached.
\<close>

theorem ValidateOperationBand_overlap_counterexample:
  "cc_lowerFrequency (sortCarriers overlappingCcs ! 1)
     - cc_higherFrequency (sortCarriers overlappingCcs ! 0) < 0
   \<and> ValidateOperationBand
        ((exampleBand 0 0 150000000 150000000 overlappingCcs)\<lparr>band_numCarriers := 3\<rparr>)
      = Inl (Abort
        ''The declared number of intra-band CCs does not match the number of configured CCs'')"
  by (simp add: ValidateOperationBand_def sortCarriers_def overlappingCcs_def exampleBand_def
      exampleCc_def)

text \<open>
  C5, amended. Let the carriers of a band be left by the sort in any order ascending in
  central frequency in which some adjacent pair has a negative gap. Then
  \<open>ValidateOperationBand\<close> aborts and returns no band: with \<open>CCs overlap\<close> when the
  declared \<open>m_numCarriers\<close> equals the number of carriers, and with the count-mismatch
  error otherwise. When the central frequencies of the carriers are pairwise distinct,
  there is one such order and the statement is about \<open>ValidateOperationBand\<close> itself.
\<close>

theorem ValidateOperationBand_overlap_aborts:
  assumes "mset ccs = mset (band_cc band)"
    and "sorted (map cc_centralFrequency ccs)"
    and "i + 1 < length ccs"
    and "cc_lowerFrequency (ccs ! (i + 1)) - cc_higherFrequency (ccs ! i) < 0"
  shows "ValidateOperationBandSorted ccs band =
     Inl (Abort (if unat (band_numCarriers band) = length (band_cc band) then ''CCs overlap''
        else ''The declared number of intra-band CCs does not match the number of configured CCs''))
   \<and> (distinct (map cc_centralFrequency (band_cc band)) \<longrightarrow>
        ValidateOperationBand band =
          Inl (Abort (if unat (band_numCarriers band) = length (band_cc band) then ''CCs overlap''
            else ''The declared number of intra-band CCs does not match the number of configured CCs'')))"
proof -
  from assms(1) have len: "length ccs = length (band_cc band)"
    by (rule mset_eq_length)
  have any: "ValidateOperationBandSorted ccs band =
     Inl (Abort (if unat (band_numCarriers band) = length (band_cc band) then ''CCs overlap''
        else ''The declared number of intra-band CCs does not match the number of configured CCs''))"
  proof (cases "unat (band_numCarriers band) = length (band_cc band)")
    case False
    with assms(3) len show ?thesis
      by (auto simp: ValidateOperationBandSorted_def)
  next
    case True
    then have n: "unat (of_nat (length (band_cc band)) :: u8) = length (band_cc band)"
      using unsigned_less [of "band_numCarriers band", where ?'a = nat] by (simp add: unat_of_nat)
    have "ccOverlapLoop ccs (length (band_cc band)) 0 CONTIGUOUS = Inl (Abort ''CCs overlap'')"
      using assms(3,4) len by (intro ccOverlapLoop_negative_gap [where i = i]) simp_all
    with True n assms(3) len show ?thesis
      by (auto simp: ValidateOperationBandSorted_def Let_def)
  qed
  have "ValidateOperationBand band = ValidateOperationBandSorted ccs band"
    if "distinct (map cc_centralFrequency (band_cc band))"
  proof -
    from sort_key_unique [OF that assms(1,2)] have "sortCarriers (band_cc band) = ccs"
      by (simp add: sortCarriers_def)
    then show ?thesis
      by (simp add: ValidateOperationBand_sorted)
  qed
  with any show ?thesis
    by simp
qed

theorem ValidateOperationBand_overlap_aborts_witness:
  "mset overlappingCcs = mset (band_cc (exampleBand 0 0 150000000 150000000 overlappingCcs))
   \<and> sorted (map cc_centralFrequency overlappingCcs)
   \<and> 0 + 1 < length overlappingCcs
   \<and> cc_lowerFrequency (overlappingCcs ! (0 + 1)) - cc_higherFrequency (overlappingCcs ! 0) < 0
   \<and> distinct (map cc_centralFrequency
        (band_cc (exampleBand 0 0 150000000 150000000 overlappingCcs)))
   \<and> ValidateOperationBandSorted overlappingCcs
        (exampleBand 0 0 150000000 150000000 overlappingCcs)
       = Inl (Abort ''CCs overlap'')
   \<and> ValidateOperationBand (exampleBand 0 0 150000000 150000000 overlappingCcs)
       = Inl (Abort ''CCs overlap'')"
proof -
  have perm: "mset overlappingCcs
      = mset (band_cc (exampleBand 0 0 150000000 150000000 overlappingCcs))"
    by (simp add: exampleBand_def)
  have asc: "sorted (map cc_centralFrequency overlappingCcs)"
    by (simp add: overlappingCcs_def exampleCc_def)
  have len: "0 + 1 < length overlappingCcs"
    by (simp add: overlappingCcs_def)
  have gap: "cc_lowerFrequency (overlappingCcs ! (0 + 1))
      - cc_higherFrequency (overlappingCcs ! 0) < 0"
    by (simp add: overlappingCcs_def exampleCc_def)
  have apart: "distinct (map cc_centralFrequency
      (band_cc (exampleBand 0 0 150000000 150000000 overlappingCcs)))"
    by (simp add: exampleBand_def overlappingCcs_def exampleCc_def)
  have declared: "unat (band_numCarriers (exampleBand 0 0 150000000 150000000 overlappingCcs))
      = length (band_cc (exampleBand 0 0 150000000 150000000 overlappingCcs))"
    by (simp add: exampleBand_def overlappingCcs_def)
  from ValidateOperationBand_overlap_aborts [OF perm asc len gap] apart declared
  have "ValidateOperationBandSorted overlappingCcs
        (exampleBand 0 0 150000000 150000000 overlappingCcs)
       = Inl (Abort ''CCs overlap'')
    \<and> ValidateOperationBand (exampleBand 0 0 150000000 150000000 overlappingCcs)
       = Inl (Abort ''CCs overlap'')"
    by simp
  with perm asc len gap apart show ?thesis
    by simp
qed

text \<open>
  C6. After a successful \<open>ChangeActiveBwp\<close>, \<open>GetActiveBwpInfo\<close> on the changed carrier
  is to return the bandwidth part with the new id. As stated this fails where the
  lookup rejects the carrier's index: in a band that holds one carrier but declares
  \<open>m_numCarriers = 0\<close>, the change to bandwidth part 1 succeeds and the lookup at
  indices \<open>(0, 0)\<close> aborts.
\<close>

theorem ChangeActiveBwp_lookup_counterexample:
  "ChangeActiveBwp (exampleCreator [(exampleBand 0 0 4294967295 4000000000 [wideCc])
        \<lparr>band_numCarriers := 0\<rparr>]) 0 0 1
     = Inr (exampleCreator [(exampleBand 0 0 4294967295 4000000000 [wideCc\<lparr>cc_activeBwp := 1\<rparr>])
        \<lparr>band_numCarriers := 0\<rparr>])
   \<and> GetActiveBwpInfo (exampleCreator
        [(exampleBand 0 0 4294967295 4000000000 [wideCc\<lparr>cc_activeBwp := 1\<rparr>])
        \<lparr>band_numCarriers := 0\<rparr>]) 0 0
     = Inl (Abort ''Wrong component carrier index'')"
  by (simp add: ChangeActiveBwp_def GetActiveBwpInfo_def exampleCreator_def exampleBand_def
      wideCc_def exampleCc_def exampleBwp_def)

text \<open>
  C6, amended. For every carrier addressed by indices that pass the checks of the lookup
  (the band index below \<open>m_maxBands\<close> and the number of bands, the carrier index below
  the band's \<open>m_numCarriers\<close> and the number of its carriers), \<open>GetActiveBwpInfo\<close>
  returns a bandwidth part of that carrier whose id is the carrier's active id when the
  carrier has one, and aborts when it has none; and whatever the indices, a lookup that
  returns gives such a bandwidth part. When \<open>ChangeActiveBwp\<close> succeeds, it has set the
  active id of one carrier with the requested band and carrier ids, at some position
  \<open>(bi, ci)\<close>, and changed nothing else; provided \<open>bi\<close> is below \<open>m_maxBands\<close> and \<open>ci\<close>
  below the band's \<open>m_numCarriers\<close> (the index checks of the lookup),
  \<open>GetActiveBwpInfo\<close> at \<open>(bi, ci)\<close> then returns a bandwidth part of that carrier
  whose id is the new id.
\<close>

theorem ChangeActiveBwp_then_GetActiveBwpInfo:
  "(unat bandIndex < length (m_bands t) \<and> bandIndex < m_maxBands t
       \<and> unat ccIndex < length (band_cc (m_bands t ! unat bandIndex))
       \<and> ccIndex < band_numCarriers (m_bands t ! unat bandIndex)
       \<and> cc_activeBwp (band_cc (m_bands t ! unat bandIndex) ! unat ccIndex)
            \<in> set (map bwp_bwpId (cc_bwp (band_cc (m_bands t ! unat bandIndex) ! unat ccIndex)))
       \<longrightarrow> (\<exists>active. GetActiveBwpInfo t bandIndex ccIndex = Inr active
              \<and> bwp_bwpId active
                  = cc_activeBwp (band_cc (m_bands t ! unat bandIndex) ! unat ccIndex)
              \<and> active \<in> set (cc_bwp (band_cc (m_bands t ! unat bandIndex) ! unat ccIndex))))
   \<and> (unat bandIndex < length (m_bands t) \<and> bandIndex < m_maxBands t
       \<and> unat ccIndex < length (band_cc (m_bands t ! unat bandIndex))
       \<and> ccIndex < band_numCarriers (m_bands t ! unat bandIndex)
       \<and> cc_activeBwp (band_cc (m_bands t ! unat bandIndex) ! unat ccIndex)
            \<notin> set (map bwp_bwpId (cc_bwp (band_cc (m_bands t ! unat bandIndex) ! unat ccIndex)))
       \<longrightarrow> GetActiveBwpInfo t bandIndex ccIndex
            = Inl (Abort ''Active BWP id is not found in the current CC''))
   \<and> (GetActiveBwpInfo t bandIndex ccIndex = Inr bwp \<longrightarrow>
      bwp_bwpId bwp = cc_activeBwp (band_cc (m_bands t ! unat bandIndex) ! unat ccIndex)
      \<and> bwp \<in> set (cc_bwp (band_cc (m_bands t ! unat bandIndex) ! unat ccIndex)))
   \<and> (ChangeActiveBwp s bandId ccId activeBwpId = Inr s' \<longrightarrow>
        (\<exists>bi < length (m_bands s). \<exists>ci < length (band_cc (m_bands s ! bi)).
           band_bandId (m_bands s ! bi) = bandId
           \<and> cc_ccId (band_cc (m_bands s ! bi) ! ci) = ccId
           \<and> s' = s\<lparr>m_bands := (m_bands s)[bi := (m_bands s ! bi)\<lparr>band_cc :=
                 (band_cc (m_bands s ! bi))[ci :=
                    (band_cc (m_bands s ! bi) ! ci)\<lparr>cc_activeBwp := activeBwpId\<rparr>]\<rparr>]\<rparr>
           \<and> (bi < unat (m_maxBands s) \<and> ci < unat (band_numCarriers (m_bands s ! bi)) \<longrightarrow>
                (\<exists>new. GetActiveBwpInfo s' (of_nat bi) (of_nat ci) = Inr new
                   \<and> bwp_bwpId new = activeBwpId
                   \<and> new \<in> set (cc_bwp (band_cc (m_bands s ! bi) ! ci))))))"
proof (intro conjI impI)
  assume a: "unat bandIndex < length (m_bands t) \<and> bandIndex < m_maxBands t
       \<and> unat ccIndex < length (band_cc (m_bands t ! unat bandIndex))
       \<and> ccIndex < band_numCarriers (m_bands t ! unat bandIndex)
       \<and> cc_activeBwp (band_cc (m_bands t ! unat bandIndex) ! unat ccIndex)
            \<in> set (map bwp_bwpId (cc_bwp (band_cc (m_bands t ! unat bandIndex) ! unat ccIndex)))"
  then have "cc_activeBwp (band_cc (m_bands t ! unat bandIndex) ! unat ccIndex)
            \<in> set (map bwp_bwpId (cc_bwp (band_cc (m_bands t ! unat bandIndex) ! unat ccIndex)))"
    by simp
  from find_bwp_by_id [OF this] obtain active where
    "find (\<lambda>b. bwp_bwpId b = cc_activeBwp (band_cc (m_bands t ! unat bandIndex) ! unat ccIndex))
       (cc_bwp (band_cc (m_bands t ! unat bandIndex) ! unat ccIndex)) = Some active"
    and "bwp_bwpId active = cc_activeBwp (band_cc (m_bands t ! unat bandIndex) ! unat ccIndex)"
    and "active \<in> set (cc_bwp (band_cc (m_bands t ! unat bandIndex) ! unat ccIndex))"
    by blast
  with a show "\<exists>active. GetActiveBwpInfo t bandIndex ccIndex = Inr active
              \<and> bwp_bwpId active
                  = cc_activeBwp (band_cc (m_bands t ! unat bandIndex) ! unat ccIndex)
              \<and> active \<in> set (cc_bwp (band_cc (m_bands t ! unat bandIndex) ! unat ccIndex))"
    by (intro exI [of _ active]) (simp add: GetActiveBwpInfo_in_range)
next
  assume a: "unat bandIndex < length (m_bands t) \<and> bandIndex < m_maxBands t
       \<and> unat ccIndex < length (band_cc (m_bands t ! unat bandIndex))
       \<and> ccIndex < band_numCarriers (m_bands t ! unat bandIndex)
       \<and> cc_activeBwp (band_cc (m_bands t ! unat bandIndex) ! unat ccIndex)
            \<notin> set (map bwp_bwpId (cc_bwp (band_cc (m_bands t ! unat bandIndex) ! unat ccIndex)))"
  then have "find (\<lambda>b. bwp_bwpId b =
                   cc_activeBwp (band_cc (m_bands t ! unat bandIndex) ! unat ccIndex))
             (cc_bwp (band_cc (m_bands t ! unat bandIndex) ! unat ccIndex)) = None"
    by (force simp: find_None_iff)
  with a show "GetActiveBwpInfo t bandIndex ccIndex
            = Inl (Abort ''Active BWP id is not found in the current CC'')"
    by (simp add: GetActiveBwpInfo_in_range)
next
  assume "GetActiveBwpInfo t bandIndex ccIndex = Inr bwp"
  from GetActiveBwpInfo_Inr [OF this]
  show "bwp_bwpId bwp = cc_activeBwp (band_cc (m_bands t ! unat bandIndex) ! unat ccIndex)"
    and "bwp \<in> set (cc_bwp (band_cc (m_bands t ! unat bandIndex) ! unat ccIndex))"
    by simp_all
next
  assume "ChangeActiveBwp s bandId ccId activeBwpId = Inr s'"
  then obtain bands' where
    ch: "changeActiveInBands (m_bands s) bandId ccId activeBwpId = Some bands'"
    and s': "s' = s\<lparr>m_bands := bands'\<rparr>"
    by (auto simp: ChangeActiveBwp_def split: option.splits)
  from changeActiveInBands_Some [OF ch] obtain bi ci where
    bi: "bi < length (m_bands s)" and ci: "ci < length (band_cc (m_bands s ! bi))"
    and ids: "band_bandId (m_bands s ! bi) = bandId" "cc_ccId (band_cc (m_bands s ! bi) ! ci) = ccId"
    and has: "activeBwpId \<in> set (map bwp_bwpId (cc_bwp (band_cc (m_bands s ! bi) ! ci)))"
    and bands': "bands' = (m_bands s)[bi := (m_bands s ! bi)\<lparr>band_cc :=
                 (band_cc (m_bands s ! bi))[ci :=
                    (band_cc (m_bands s ! bi) ! ci)\<lparr>cc_activeBwp := activeBwpId\<rparr>]\<rparr>]"
    by blast
  have lookup: "\<exists>new. GetActiveBwpInfo s' (of_nat bi) (of_nat ci) = Inr new
                   \<and> bwp_bwpId new = activeBwpId
                   \<and> new \<in> set (cc_bwp (band_cc (m_bands s ! bi) ! ci))"
    if ok: "bi < unat (m_maxBands s) \<and> ci < unat (band_numCarriers (m_bands s ! bi))"
  proof -
    from ok have "bi < 256" "ci < 256"
      using unsigned_less [of "m_maxBands s", where ?'a = nat]
        unsigned_less [of "band_numCarriers (m_bands s ! bi)", where ?'a = nat]
      by simp_all
    then have ub: "unat (of_nat bi :: u8) = bi" and uc: "unat (of_nat ci :: u8) = ci"
      by (simp_all add: unat_of_nat)
    from ok ub uc have lt: "(of_nat bi :: u8) < m_maxBands s'"
      "(of_nat ci :: u8) < band_numCarriers (m_bands s' ! bi)"
      using bi by (simp_all add: word_less_nat_alt s' bands')
    have cc': "band_cc (m_bands s' ! bi) ! ci
                 = (band_cc (m_bands s ! bi) ! ci)\<lparr>cc_activeBwp := activeBwpId\<rparr>"
      using bi ci by (simp add: s' bands')
    have "GetActiveBwpInfo s' (of_nat bi) (of_nat ci) =
       (case find (\<lambda>b. bwp_bwpId b = activeBwpId) (cc_bwp (band_cc (m_bands s ! bi) ! ci)) of
          None \<Rightarrow> Inl (Abort ''Active BWP id is not found in the current CC'')
        | Some bwp \<Rightarrow> Inr bwp)"
      using GetActiveBwpInfo_in_range [of "of_nat bi" s' "of_nat ci"] lt bi ci cc'
      by (simp add: ub uc s' bands')
    with find_bwp_by_id [OF has] show ?thesis
      by auto
  qed
  from bi ci ids s' bands' lookup
  show "\<exists>bi < length (m_bands s). \<exists>ci < length (band_cc (m_bands s ! bi)).
           band_bandId (m_bands s ! bi) = bandId
           \<and> cc_ccId (band_cc (m_bands s ! bi) ! ci) = ccId
           \<and> s' = s\<lparr>m_bands := (m_bands s)[bi := (m_bands s ! bi)\<lparr>band_cc :=
                 (band_cc (m_bands s ! bi))[ci :=
                    (band_cc (m_bands s ! bi) ! ci)\<lparr>cc_activeBwp := activeBwpId\<rparr>]\<rparr>]\<rparr>
           \<and> (bi < unat (m_maxBands s) \<and> ci < unat (band_numCarriers (m_bands s ! bi)) \<longrightarrow>
                (\<exists>new. GetActiveBwpInfo s' (of_nat bi) (of_nat ci) = Inr new
                   \<and> bwp_bwpId new = activeBwpId
                   \<and> new \<in> set (cc_bwp (band_cc (m_bands s ! bi) ! ci))))"
    by blast
qed

theorem ChangeActiveBwp_then_GetActiveBwpInfo_witness:
  "ChangeActiveBwp (dualBwpCreator 0) 0 0 1 = Inr (dualBwpCreator 1)
   \<and> (\<exists>new. GetActiveBwpInfo (dualBwpCreator 1) 0 0 = Inr new \<and> bwp_bwpId new = 1)
   \<and> (\<exists>active. GetActiveBwpInfo (dualBwpCreator 0) 0 0 = Inr active \<and> bwp_bwpId active = 0)
   \<and> GetActiveBwpInfo (dualBwpCreator 0) 0 0 = Inr (exampleBwp 0 27950000000 28050000000 100000000)
   \<and> bwp_bwpId (exampleBwp 0 27950000000 28050000000 100000000) = 0
   \<and> GetActiveBwpInfo (dualBwpCreator 7) 0 0
       = Inl (Abort ''Active BWP id is not found in the current CC'')"
proof -
  have change: "ChangeActiveBwp (dualBwpCreator 0) 0 0 1 = Inr (dualBwpCreator 1)"
    by (simp add: ChangeActiveBwp_def dualBwpCreator_def exampleCreator_def exampleBand_def
        dualBwpCc_def exampleCc_def exampleBwp_def)
  from ChangeActiveBwp_then_GetActiveBwpInfo
    [where s = "dualBwpCreator 0" and bandId = 0 and ccId = 0 and activeBwpId = 1
       and s' = "dualBwpCreator 1"] change
  obtain bi ci where bi: "bi < length (m_bands (dualBwpCreator 0))"
    and ci: "ci < length (band_cc (m_bands (dualBwpCreator 0) ! bi))"
    and lookup: "bi < unat (m_maxBands (dualBwpCreator 0))
        \<and> ci < unat (band_numCarriers (m_bands (dualBwpCreator 0) ! bi)) \<longrightarrow>
      (\<exists>new. GetActiveBwpInfo (dualBwpCreator 1) (of_nat bi) (of_nat ci) = Inr new
         \<and> bwp_bwpId new = 1
         \<and> new \<in> set (cc_bwp (band_cc (m_bands (dualBwpCreator 0) ! bi) ! ci)))"
    by blast
  from bi have bi0: "bi = 0"
    by (simp add: dualBwpCreator_def exampleCreator_def)
  with ci have ci0: "ci = 0"
    by (simp add: dualBwpCreator_def exampleCreator_def exampleBand_def)
  have "bi < unat (m_maxBands (dualBwpCreator 0))
        \<and> ci < unat (band_numCarriers (m_bands (dualBwpCreator 0) ! bi))"
    by (simp add: bi0 ci0 dualBwpCreator_def exampleCreator_def exampleBand_def)
  with lookup bi0 ci0
  have after: "\<exists>new. GetActiveBwpInfo (dualBwpCreator 1) 0 0 = Inr new \<and> bwp_bwpId new = 1"
    by auto
  have present: "unat (0 :: u8) < length (m_bands (dualBwpCreator 0))
       \<and> (0 :: u8) < m_maxBands (dualBwpCreator 0)
       \<and> unat (0 :: u8) < length (band_cc (m_bands (dualBwpCreator 0) ! unat (0 :: u8)))
       \<and> (0 :: u8) < band_numCarriers (m_bands (dualBwpCreator 0) ! unat (0 :: u8))
       \<and> cc_activeBwp (band_cc (m_bands (dualBwpCreator 0) ! unat (0 :: u8)) ! unat (0 :: u8))
            \<in> set (map bwp_bwpId
                 (cc_bwp (band_cc (m_bands (dualBwpCreator 0) ! unat (0 :: u8)) ! unat (0 :: u8))))"
    by (simp add: dualBwpCreator_def exampleCreator_def exampleBand_def dualBwpCc_def
        exampleCc_def exampleBwp_def)
  from ChangeActiveBwp_then_GetActiveBwpInfo
    [where t = "dualBwpCreator 0" and bandIndex = 0 and ccIndex = 0] present
  obtain active where "GetActiveBwpInfo (dualBwpCreator 0) 0 0 = Inr active"
    and "bwp_bwpId active
       = cc_activeBwp (band_cc (m_bands (dualBwpCreator 0) ! unat (0 :: u8)) ! unat (0 :: u8))"
    by blast
  then have total: "\<exists>active. GetActiveBwpInfo (dualBwpCreator 0) 0 0 = Inr active
      \<and> bwp_bwpId active = 0"
    by (intro exI [of _ active])
      (simp add: dualBwpCreator_def exampleCreator_def exampleBand_def)
  have before: "GetActiveBwpInfo (dualBwpCreator 0) 0 0
      = Inr (exampleBwp 0 27950000000 28050000000 100000000)"
    by (simp add: GetActiveBwpInfo_def dualBwpCreator_def exampleCreator_def exampleBand_def
        dualBwpCc_def exampleCc_def exampleBwp_def)
  from ChangeActiveBwp_then_GetActiveBwpInfo
    [where t = "dualBwpCreator 0" and bandIndex = 0 and ccIndex = 0
       and bwp = "exampleBwp 0 27950000000 28050000000 100000000"] before
  have "bwp_bwpId (exampleBwp 0 27950000000 28050000000 100000000)
      = cc_activeBwp (band_cc (m_bands (dualBwpCreator 0) ! unat (0 :: u8)) ! unat (0 :: u8))"
    by blast
  then have active: "bwp_bwpId (exampleBwp 0 27950000000 28050000000 100000000) = 0"
    by (simp add: dualBwpCreator_def exampleCreator_def exampleBand_def)
  have missing: "unat (0 :: u8) < length (m_bands (dualBwpCreator 7))
       \<and> (0 :: u8) < m_maxBands (dualBwpCreator 7)
       \<and> unat (0 :: u8) < length (band_cc (m_bands (dualBwpCreator 7) ! unat (0 :: u8)))
       \<and> (0 :: u8) < band_numCarriers (m_bands (dualBwpCreator 7) ! unat (0 :: u8))
       \<and> cc_activeBwp (band_cc (m_bands (dualBwpCreator 7) ! unat (0 :: u8)) ! unat (0 :: u8))
            \<notin> set (map bwp_bwpId
                 (cc_bwp (band_cc (m_bands (dualBwpCreator 7) ! unat (0 :: u8)) ! unat (0 :: u8))))"
    by (simp add: dualBwpCreator_def exampleCreator_def exampleBand_def dualBwpCc_def
        exampleCc_def exampleBwp_def)
  from ChangeActiveBwp_then_GetActiveBwpInfo
    [where t = "dualBwpCreator 7" and bandIndex = 0 and ccIndex = 0] missing
  have "GetActiveBwpInfo (dualBwpCreator 7) 0 0
       = Inl (Abort ''Active BWP id is not found in the current CC'')"
    by blast
  with change after total before active show ?thesis
    by simp
qed

text \<open>
  C7. \<open>GetAggregatedBandwidth\<close> is to return exactly the sum of the bandwidths of the
  active bandwidth parts of all carriers. As stated this fails where the \<open>uint32_t\<close>
  accumulator wraps: two carriers whose active bandwidth parts have 2147483648 Hz each
  aggregate to 0, not to 4294967296.
\<close>

theorem GetAggregatedBandwidth_wraps_counterexample:
  "GetAggregatedBandwidth twoWideCcs = 0
   \<and> sum_list (map (unat \<circ> bwp_bandwidth) (activeBwps twoWideCcs)) = 4294967296"
  by (simp add: GetAggregatedBandwidth_def activeBwps_def activeBwpsOfCc_def twoWideCcs_def
      exampleCreator_def exampleBand_def exampleCc_def exampleBwp_def)


text \<open>
  C7, amended. \<open>GetAggregatedBandwidth\<close> returns the sum, modulo \<open>2^32\<close>, of the
  bandwidths of exactly those bandwidth parts whose id is the active id of their carrier,
  over all carriers of all bands; a bandwidth part with another id is never counted. A
  successful \<open>ChangeActiveBwp\<close> leaves the bandwidth parts of every carrier as they were,
  and in the aggregate (in \<open>uint32_t\<close> arithmetic) it replaces the contribution of the
  changed carrier's formerly active bandwidth parts by that of its bandwidth parts with
  the new id.
\<close>

theorem GetAggregatedBandwidth_active_sum:
  "unat (GetAggregatedBandwidth s) = (\<Sum>bwp\<leftarrow>activeBwps s. unat (bwp_bandwidth bwp)) mod 2 ^ 32
   \<and> (ChangeActiveBwp s bandId ccId activeBwpId = Inr s' \<longrightarrow>
        map (\<lambda>band. map cc_bwp (band_cc band)) (m_bands s')
          = map (\<lambda>band. map cc_bwp (band_cc band)) (m_bands s)
        \<and> (\<exists>bi < length (m_bands s). \<exists>ci < length (band_cc (m_bands s ! bi)).
             band_bandId (m_bands s ! bi) = bandId
             \<and> cc_ccId (band_cc (m_bands s ! bi) ! ci) = ccId
             \<and> GetAggregatedBandwidth s' =
                 GetAggregatedBandwidth s
                 - sum_list (map bwp_bandwidth (activeBwpsOfCc (band_cc (m_bands s ! bi) ! ci)))
                 + sum_list (map bwp_bandwidth (filter (\<lambda>bwp. bwp_bwpId bwp = activeBwpId)
                                                  (cc_bwp (band_cc (m_bands s ! bi) ! ci))))))"
proof (intro conjI impI)
  show "unat (GetAggregatedBandwidth s)
      = (\<Sum>bwp\<leftarrow>activeBwps s. unat (bwp_bandwidth bwp)) mod 2 ^ 32"
    by (simp add: GetAggregatedBandwidth_activeBwps unat_sum_list_mod)
next
  assume "ChangeActiveBwp s bandId ccId activeBwpId = Inr s'"
  then obtain bands' where
    ch: "changeActiveInBands (m_bands s) bandId ccId activeBwpId = Some bands'"
    and s': "s' = s\<lparr>m_bands := bands'\<rparr>"
    by (auto simp: ChangeActiveBwp_def split: option.splits)
  from changeActiveInBands_Some [OF ch] obtain bi ci where
    bi: "bi < length (m_bands s)" and ci: "ci < length (band_cc (m_bands s ! bi))"
    and ids: "band_bandId (m_bands s ! bi) = bandId" "cc_ccId (band_cc (m_bands s ! bi) ! ci) = ccId"
    and bands': "bands' = (m_bands s)[bi := (m_bands s ! bi)\<lparr>band_cc :=
                 (band_cc (m_bands s ! bi))[ci :=
                    (band_cc (m_bands s ! bi) ! ci)\<lparr>cc_activeBwp := activeBwpId\<rparr>]\<rparr>]"
    by blast
  define band where "band = m_bands s ! bi"
  define cc where "cc = band_cc band ! ci"
  define h where "h = (\<lambda>cc :: ComponentCarrierInfo. sum_list (map bwp_bandwidth (activeBwpsOfCc cc)))"
  define g where "g = (\<lambda>band :: OperationBandInfo. \<Sum>cc\<leftarrow>band_cc band. h cc)"
  have ccs: "map cc_bwp ((band_cc band)[ci := cc\<lparr>cc_activeBwp := activeBwpId\<rparr>])
           = map cc_bwp (band_cc band)"
    using ci by (simp add: map_update cc_def band_def list_update_same_conv)
  have "map (\<lambda>band. map cc_bwp (band_cc band)) bands'
      = (map (\<lambda>band. map cc_bwp (band_cc band)) (m_bands s))
          [bi := map cc_bwp (band_cc band)]"
    using ccs by (simp add: bands' map_update band_def cc_def)
  also have "\<dots> = map (\<lambda>band. map cc_bwp (band_cc band)) (m_bands s)"
    using bi by (simp add: list_update_same_conv band_def)
  finally show "map (\<lambda>band. map cc_bwp (band_cc band)) (m_bands s')
          = map (\<lambda>band. map cc_bwp (band_cc band)) (m_bands s)"
    by (simp add: s')
  have hnew: "h (cc\<lparr>cc_activeBwp := activeBwpId\<rparr>)
      = sum_list (map bwp_bandwidth (filter (\<lambda>bwp. bwp_bwpId bwp = activeBwpId) (cc_bwp cc)))"
    by (simp add: h_def activeBwpsOfCc_def)
  have gnew: "g (band\<lparr>band_cc := (band_cc band)[ci := cc\<lparr>cc_activeBwp := activeBwpId\<rparr>]\<rparr>)
      = g band - h cc + h (cc\<lparr>cc_activeBwp := activeBwpId\<rparr>)"
    using ci sum_list_map_update [of ci "band_cc band" h]
    by (simp add: g_def cc_def band_def)
  have "GetAggregatedBandwidth s' = (\<Sum>band\<leftarrow>bands'. g band)"
    by (simp add: GetAggregatedBandwidth_nested s' g_def h_def)
  also have "\<dots> = (\<Sum>band\<leftarrow>m_bands s. g band) - g band
        + g (band\<lparr>band_cc := (band_cc band)[ci := cc\<lparr>cc_activeBwp := activeBwpId\<rparr>]\<rparr>)"
    using bi sum_list_map_update [of bi "m_bands s" g]
    by (simp add: bands' band_def cc_def)
  also have "\<dots> = (\<Sum>band\<leftarrow>m_bands s. g band) - h cc + h (cc\<lparr>cc_activeBwp := activeBwpId\<rparr>)"
    by (simp add: gnew)
  also have "(\<Sum>band\<leftarrow>m_bands s. g band) = GetAggregatedBandwidth s"
    by (simp add: GetAggregatedBandwidth_nested g_def h_def)
  finally have "GetAggregatedBandwidth s' =
     GetAggregatedBandwidth s
       - sum_list (map bwp_bandwidth (activeBwpsOfCc (band_cc (m_bands s ! bi) ! ci)))
       + sum_list (map bwp_bandwidth (filter (\<lambda>bwp. bwp_bwpId bwp = activeBwpId)
                                        (cc_bwp (band_cc (m_bands s ! bi) ! ci))))"
    by (simp add: hnew) (simp add: h_def cc_def band_def)
  with bi ci ids
  show "\<exists>bi < length (m_bands s). \<exists>ci < length (band_cc (m_bands s ! bi)).
             band_bandId (m_bands s ! bi) = bandId
             \<and> cc_ccId (band_cc (m_bands s ! bi) ! ci) = ccId
             \<and> GetAggregatedBandwidth s' =
                 GetAggregatedBandwidth s
                 - sum_list (map bwp_bandwidth (activeBwpsOfCc (band_cc (m_bands s ! bi) ! ci)))
                 + sum_list (map bwp_bandwidth (filter (\<lambda>bwp. bwp_bwpId bwp = activeBwpId)
                                                  (cc_bwp (band_cc (m_bands s ! bi) ! ci))))"
    by blast
qed

theorem GetAggregatedBandwidth_active_sum_witness:
  "ChangeActiveBwp (dualBwpCreator 0) 0 0 1 = Inr (dualBwpCreator 1)
   \<and> unat (GetAggregatedBandwidth (dualBwpCreator 0)) = 100000000
   \<and> unat (GetAggregatedBandwidth (dualBwpCreator 1)) = 100000000
   \<and> map (\<lambda>band. map cc_bwp (band_cc band)) (m_bands (dualBwpCreator 1))
       = map (\<lambda>band. map cc_bwp (band_cc band)) (m_bands (dualBwpCreator 0))"
proof -
  have change: "ChangeActiveBwp (dualBwpCreator 0) 0 0 1 = Inr (dualBwpCreator 1)"
    by (simp add: ChangeActiveBwp_def dualBwpCreator_def exampleCreator_def exampleBand_def
        dualBwpCc_def exampleCc_def exampleBwp_def)
  from GetAggregatedBandwidth_active_sum
    [where s = "dualBwpCreator 0" and bandId = 0 and ccId = 0 and activeBwpId = 1
       and s' = "dualBwpCreator 1"] change
  have before: "unat (GetAggregatedBandwidth (dualBwpCreator 0))
      = (\<Sum>bwp\<leftarrow>activeBwps (dualBwpCreator 0). unat (bwp_bandwidth bwp)) mod 2 ^ 32"
    and same: "map (\<lambda>band. map cc_bwp (band_cc band)) (m_bands (dualBwpCreator 1))
       = map (\<lambda>band. map cc_bwp (band_cc band)) (m_bands (dualBwpCreator 0))"
    by blast+
  from GetAggregatedBandwidth_active_sum [where s = "dualBwpCreator 1"]
  have after: "unat (GetAggregatedBandwidth (dualBwpCreator 1))
      = (\<Sum>bwp\<leftarrow>activeBwps (dualBwpCreator 1). unat (bwp_bandwidth bwp)) mod 2 ^ 32"
    by blast
  have "unat (GetAggregatedBandwidth (dualBwpCreator 0)) = 100000000"
    unfolding before
    by (simp add: activeBwps_def activeBwpsOfCc_def dualBwpCreator_def exampleCreator_def
        exampleBand_def dualBwpCc_def exampleCc_def exampleBwp_def)
  moreover have "unat (GetAggregatedBandwidth (dualBwpCreator 1)) = 100000000"
    unfolding after
    by (simp add: activeBwps_def activeBwpsOfCc_def dualBwpCreator_def exampleCreator_def
        exampleBand_def dualBwpCc_def exampleCc_def exampleBwp_def)
  ultimately show ?thesis
    using change same by simp
qed




text \<open>
  C9. \<open>EnqueueDlHarqFeedback\<close> is to select, for every feedback, exactly one of the
  configured carriers, the one whose index the routing function of the BWP manager
  returns, and to forward the feedback to its PHY. As stated this fails when the
  routing function returns an index that is no key of the carrier map, which the code
  does not check: on the UE with carriers 0 and 1 and a manager, a feedback routed to
  index 5 makes \<open>m_ccMap.at (index)\<close> throw; no carrier is selected, nothing is
  forwarded, and no assertion fails.
\<close>

theorem EnqueueDlHarqFeedback_unrouted_counterexample:
  "m_componentCarrierManager twoCarrierUe \<noteq> None
   \<and> map fst (m_ccMap twoCarrierUe) = [0, 1]
   \<and> EnqueueDlHarqFeedback examplePhyEnqueue twoCarrierUe 5 = Inl OutOfRange"
  by (simp add: EnqueueDlHarqFeedback_def twoCarrierUe_def Let_def)

text \<open>
  C9, amended. \<open>EnqueueDlHarqFeedback\<close> fails with an assertion when the device has no
  BWP manager. With a manager whose routing function gives, for the feedback, an index
  that is a key of the carrier map, the feedback is forwarded to the PHY of exactly that
  carrier: one entry of the carrier map, the one with that index, has its PHY changed by
  the PHY's enqueue operation, every other entry, the carrier indices and the manager
  are as they were. With a manager whose routing function gives an index that is no key
  of the carrier map, \<open>std::map::at\<close> throws and nothing is forwarded.
\<close>

theorem EnqueueDlHarqFeedback_routes:
  "(m_componentCarrierManager dev = None \<longrightarrow>
      EnqueueDlHarqFeedback phyEnqueue dev m = Inl AssertFailed)
   \<and> (m_componentCarrierManager dev = Some route \<and> map_of (m_ccMap dev) (route m) = Some cc \<longrightarrow>
        (\<exists>dev'. EnqueueDlHarqFeedback phyEnqueue dev m = Inr dev'
           \<and> m_componentCarrierManager dev' = Some route
           \<and> (\<exists>p < length (m_ccMap dev). m_ccMap dev ! p = (route m, cc)
                \<and> m_ccMap dev'
                    = (m_ccMap dev)[p := (route m, cc\<lparr>ccue_phy := phyEnqueue m (ccue_phy cc)\<rparr>)])
           \<and> map_of (m_ccMap dev') (route m) = Some (cc\<lparr>ccue_phy := phyEnqueue m (ccue_phy cc)\<rparr>)
           \<and> (\<forall>index. index \<noteq> route m \<longrightarrow>
                 map_of (m_ccMap dev') index = map_of (m_ccMap dev) index)
           \<and> map fst (m_ccMap dev') = map fst (m_ccMap dev)))
   \<and> (m_componentCarrierManager dev = Some route \<and> map_of (m_ccMap dev) (route m) = None \<longrightarrow>
        EnqueueDlHarqFeedback phyEnqueue dev m = Inl OutOfRange)"
proof (intro conjI impI)
  assume "m_componentCarrierManager dev = None"
  then show "EnqueueDlHarqFeedback phyEnqueue dev m = Inl AssertFailed"
    by (simp add: EnqueueDlHarqFeedback_def)
next
  assume a: "m_componentCarrierManager dev = Some route \<and> map_of (m_ccMap dev) (route m) = Some cc"
  define cc' where "cc' = cc\<lparr>ccue_phy := phyEnqueue m (ccue_phy cc)\<rparr>"
  define dev' where "dev' = dev\<lparr>m_ccMap := AList.update (route m) cc' (m_ccMap dev)\<rparr>"
  from a have run: "EnqueueDlHarqFeedback phyEnqueue dev m = Inr dev'"
    by (simp add: EnqueueDlHarqFeedback_def Let_def dev'_def cc'_def)
  from a have manager: "m_componentCarrierManager dev' = Some route"
    by (simp add: dev'_def)
  from a have "map_of (m_ccMap dev) (route m) = Some cc"
    by simp
  from update_at_position [OF this, of cc']
  have position: "\<exists>p < length (m_ccMap dev). m_ccMap dev ! p = (route m, cc)
      \<and> m_ccMap dev' = (m_ccMap dev)[p := (route m, cc')]"
    by (simp add: dev'_def)
  from a have key: "route m \<in> set (map fst (m_ccMap dev))"
    by (metis map_of_eq_None_iff option.distinct(1) set_map)
  have routed: "map_of (m_ccMap dev') (route m) = Some cc'"
    by (simp add: dev'_def update_conv')
  have others: "\<forall>index. index \<noteq> route m \<longrightarrow>
      map_of (m_ccMap dev') index = map_of (m_ccMap dev) index"
    by (simp add: dev'_def update_conv')
  from key have keys: "map fst (m_ccMap dev') = map fst (m_ccMap dev)"
    by (simp add: dev'_def update_keys)
  from run manager position routed others keys
  show "\<exists>dev'. EnqueueDlHarqFeedback phyEnqueue dev m = Inr dev'
           \<and> m_componentCarrierManager dev' = Some route
           \<and> (\<exists>p < length (m_ccMap dev). m_ccMap dev ! p = (route m, cc)
                \<and> m_ccMap dev'
                    = (m_ccMap dev)[p := (route m, cc\<lparr>ccue_phy := phyEnqueue m (ccue_phy cc)\<rparr>)])
           \<and> map_of (m_ccMap dev') (route m) = Some (cc\<lparr>ccue_phy := phyEnqueue m (ccue_phy cc)\<rparr>)
           \<and> (\<forall>index. index \<noteq> route m \<longrightarrow>
                 map_of (m_ccMap dev') index = map_of (m_ccMap dev) index)
           \<and> map fst (m_ccMap dev') = map fst (m_ccMap dev)"
    unfolding cc'_def by (intro exI [of _ dev']) simp
next
  assume "m_componentCarrierManager dev = Some route \<and> map_of (m_ccMap dev) (route m) = None"
  then show "EnqueueDlHarqFeedback phyEnqueue dev m = Inl OutOfRange"
    by (simp add: EnqueueDlHarqFeedback_def Let_def)
qed

theorem EnqueueDlHarqFeedback_routes_witness:
  "EnqueueDlHarqFeedback examplePhyEnqueue (twoCarrierUe\<lparr>m_componentCarrierManager := None\<rparr>) 1
     = Inl AssertFailed
   \<and> (\<exists>dev'. EnqueueDlHarqFeedback examplePhyEnqueue twoCarrierUe 1 = Inr dev'
        \<and> m_ccMap dev'
            = [(0, \<lparr>ccue_dlEarfcn = 1,
                    ccue_phy = \<lparr>centerFrequency = 28000000000, dlHarqQueue = []\<rparr>\<rparr>),
               (1, \<lparr>ccue_dlEarfcn = 2,
                    ccue_phy = \<lparr>centerFrequency = 30000000000, dlHarqQueue = [1]\<rparr>\<rparr>)])
   \<and> EnqueueDlHarqFeedback examplePhyEnqueue twoCarrierUe 5 = Inl OutOfRange"
proof -
  have none: "m_componentCarrierManager (twoCarrierUe\<lparr>m_componentCarrierManager := None\<rparr>) = None"
    by simp
  have manager: "m_componentCarrierManager twoCarrierUe = Some (\<lambda>carrierIndicator. carrierIndicator)
      \<and> map_of (m_ccMap twoCarrierUe) ((\<lambda>carrierIndicator. carrierIndicator) (1 :: u8))
          = Some \<lparr>ccue_dlEarfcn = 2,
                  ccue_phy = \<lparr>centerFrequency = 30000000000, dlHarqQueue = []\<rparr>\<rparr>"
    by (simp add: twoCarrierUe_def)
  have unknown: "m_componentCarrierManager twoCarrierUe = Some (\<lambda>carrierIndicator. carrierIndicator)
      \<and> map_of (m_ccMap twoCarrierUe) ((\<lambda>carrierIndicator. carrierIndicator) (5 :: u8)) = None"
    by (simp add: twoCarrierUe_def)
  from EnqueueDlHarqFeedback_routes
    [where dev = "twoCarrierUe\<lparr>m_componentCarrierManager := None\<rparr>"
       and phyEnqueue = examplePhyEnqueue and m = 1] none
  have first: "EnqueueDlHarqFeedback examplePhyEnqueue
      (twoCarrierUe\<lparr>m_componentCarrierManager := None\<rparr>) 1 = Inl AssertFailed"
    by blast
  from EnqueueDlHarqFeedback_routes
    [where dev = twoCarrierUe and phyEnqueue = examplePhyEnqueue and m = 5
       and route = "\<lambda>carrierIndicator. carrierIndicator"] unknown
  have third: "EnqueueDlHarqFeedback examplePhyEnqueue twoCarrierUe 5 = Inl OutOfRange"
    by blast
  from EnqueueDlHarqFeedback_routes
    [where dev = twoCarrierUe and phyEnqueue = examplePhyEnqueue and m = 1
       and route = "\<lambda>carrierIndicator. carrierIndicator"
       and cc = "\<lparr>ccue_dlEarfcn = 2,
                  ccue_phy = \<lparr>centerFrequency = 30000000000, dlHarqQueue = []\<rparr>\<rparr>"] manager
  obtain dev' p where run: "EnqueueDlHarqFeedback examplePhyEnqueue twoCarrierUe 1 = Inr dev'"
    and p: "p < length (m_ccMap twoCarrierUe)"
      "m_ccMap twoCarrierUe ! p
         = (1, \<lparr>ccue_dlEarfcn = 2,
                ccue_phy = \<lparr>centerFrequency = 30000000000, dlHarqQueue = []\<rparr>\<rparr>)"
    and changed: "m_ccMap dev'
         = (m_ccMap twoCarrierUe)
             [p := (1, \<lparr>ccue_dlEarfcn = 2,
                      ccue_phy = \<lparr>centerFrequency = 30000000000, dlHarqQueue = []\<rparr>\<rparr>
                   \<lparr>ccue_phy := examplePhyEnqueue 1
                      (ccue_phy \<lparr>ccue_dlEarfcn = 2,
                         ccue_phy = \<lparr>centerFrequency = 30000000000, dlHarqQueue = []\<rparr>\<rparr>)\<rparr>)]"
    by auto
  from p have "p = 1"
    by (cases p) (simp_all add: twoCarrierUe_def)
  with changed have "m_ccMap dev'
            = [(0, \<lparr>ccue_dlEarfcn = 1,
                    ccue_phy = \<lparr>centerFrequency = 28000000000, dlHarqQueue = []\<rparr>\<rparr>),
               (1, \<lparr>ccue_dlEarfcn = 2,
                    ccue_phy = \<lparr>centerFrequency = 30000000000, dlHarqQueue = [1]\<rparr>\<rparr>)]"
    by (simp add: twoCarrierUe_def examplePhyEnqueue_def)
  with run have "\<exists>dev'. EnqueueDlHarqFeedback examplePhyEnqueue twoCarrierUe 1 = Inr dev'
        \<and> m_ccMap dev'
            = [(0, \<lparr>ccue_dlEarfcn = 1,
                    ccue_phy = \<lparr>centerFrequency = 28000000000, dlHarqQueue = []\<rparr>\<rparr>),
               (1, \<lparr>ccue_dlEarfcn = 2,
                    ccue_phy = \<lparr>centerFrequency = 30000000000, dlHarqQueue = [1]\<rparr>\<rparr>)]"
    by (intro exI [of _ dev']) simp
  with first third show ?thesis
    by simp
qed

text \<open>
  C10. \<open>GetPhyOnCenterFreq\<close> is to return the PHY of the carrier configured at the
  requested centre frequency, and the null pointer when there is none. The code never
  reads the requested frequency: it returns the PHY of the first carrier with a non-zero
  DL EARFCN. On the UE with carriers at 28 GHz and 30 GHz, a request for 30 GHz returns
  the 28 GHz PHY, and a request for 5 GHz, where the UE has no PHY, returns the 28 GHz
  PHY instead of the null pointer.
\<close>

theorem GetPhyOnCenterFreq_ignores_frequency:
  "GetPhyOnCenterFreq twoCarrierUe 30000000000
     = Some \<lparr>centerFrequency = 28000000000, dlHarqQueue = []\<rparr>
   \<and> GetPhyOnCenterFreq twoCarrierUe 5000000000
     = Some \<lparr>centerFrequency = 28000000000, dlHarqQueue = []\<rparr>"
  by (simp add: GetPhyOnCenterFreq_def twoCarrierUe_def)

end
